theory Spec2Isabelle
  imports Main "HOL-Library.Word" "HOL-Library.Char_ord" "HOL-Library.List_Lexorder"
begin

section \<open>The Svalinn MVP policy gate (tools/mvp/svalinn\_gate.py)\<close>

text \<open>
  The gate is a Python script working on documents loaded by \<^verbatim>\<open>json.load\<close>. The
  embedding keeps the dynamic typing of the script: every document is a value of the
  datatype \<open>json\<close>, every Python exception that an operation of the script can raise on
  such a value is a branch of the model, and the functions return \<open>error + 'a\<close>.

  Conventions.
  \<^item> A Python \<^verbatim>\<open>str\<close> is modelled by the HOL string of its UTF-8 bytes, so
    \<^verbatim>\<open>s.encode("utf-8")\<close> is a change of type only, the length of the encoded
    bytes is the length of the HOL string, and the lexicographic order on HOL strings is
    Python's order on \<^verbatim>\<open>str\<close>. Strings with lone surrogates are outside the model.
  \<^item> A JSON number is an integer; documents with non-integer numbers are outside the
    model.
  \<^item> A \<^verbatim>\<open>dict\<close> loaded from JSON is an association list with string keys in
    insertion order; a key is looked up with \<open>map_of\<close>.
  \<^item> A Python \<^verbatim>\<open>set\<close> is the list of its elements in insertion order, pairwise
    different for Python's \<^verbatim>\<open>==\<close>. The order in which a \<^verbatim>\<open>for\<close> loop visits
    a set is chosen by the interpreter; it is the parameter \<open>set_order\<close> below.
  \<^item> Functions of the Python library and the external \<^verbatim>\<open>openssl\<close> process are
    parameters of the model, collected in the record \<open>lib\<close>.
\<close>

subsection \<open>Values, exceptions, results\<close>

datatype json =
    JNull
  | JBool bool
  | JInt int
  | JStr string
  | JArr "json list"
  | JObj "(string \<times> json) list"

type_synonym byte = "8 word"

datatype exn =
    KeyError
  | TypeError
  | AttributeError
  | Base64Error
  | UnicodeDecodeError
  | JSONDecodeError
  | CalledProcessError

text \<open>
  \<open>GateError message error_id details\<close> is the exception class of the script; \<open>PyError\<close>
  is any other exception, which no handler of the script catches. \<open>Base64Error\<close> stands
  for \<^verbatim>\<open>binascii.Error\<close> and for the \<^verbatim>\<open>ValueError\<close> that
  \<^verbatim>\<open>base64.b64decode\<close> raises on a non-ASCII string.
\<close>

datatype error =
    GateError string string "(string \<times> json) list"
  | PyError exn

definition bnd :: "error + 'a \<Rightarrow> ('a \<Rightarrow> error + 'b) \<Rightarrow> error + 'b" where
  "bnd m f = (case m of Inl e \<Rightarrow> Inl e | Inr x \<Rightarrow> f x)"

record lib =
  b64decode :: "string \<Rightarrow> byte list option"
  decode_utf8 :: "byte list \<Rightarrow> string option"
  json_loads :: "string \<Rightarrow> json option"
  openssl_verify :: "byte list \<Rightarrow> byte list \<Rightarrow> byte list \<Rightarrow> bool"
  py_repr :: "json \<Rightarrow> string"
  set_order :: "json list \<Rightarrow> json list"

text \<open>
  \<^item> \<open>b64decode\<close>: \<^verbatim>\<open>base64.b64decode\<close> on a \<^verbatim>\<open>str\<close>; \<open>None\<close> when it raises.
  \<^item> \<open>decode_utf8\<close>: \<^verbatim>\<open>bytes.decode("utf-8")\<close>; \<open>None\<close> when it raises.
  \<^item> \<open>json_loads\<close>: \<^verbatim>\<open>json.loads\<close>; \<open>None\<close> when it raises.
  \<^item> \<open>openssl_verify pub_der signature message\<close>: whether
    \<^verbatim>\<open>openssl pkeyutl -verify -pubin -inkey pub.der -inform DER -rawin -sigfile sig.bin\<close>
    with \<open>message\<close> on its standard input exits with status 0.
  \<^item> \<open>py_repr\<close>: \<^verbatim>\<open>str()\<close> of a list or a dict, as an f-string renders it.
  \<^item> \<open>set_order\<close>: the order in which a \<^verbatim>\<open>for\<close> loop visits the elements of a set.
\<close>

subsection \<open>Python operations on JSON values\<close>

definition py_truthy :: "json \<Rightarrow> bool" where
  "py_truthy v = (case v of
       JNull \<Rightarrow> False
     | JBool b \<Rightarrow> b
     | JInt i \<Rightarrow> i \<noteq> 0
     | JStr s \<Rightarrow> s \<noteq> []
     | JArr xs \<Rightarrow> xs \<noteq> []
     | JObj kvs \<Rightarrow> kvs \<noteq> [])"

definition hashable :: "json \<Rightarrow> bool" where
  "hashable v = (case v of JArr _ \<Rightarrow> False | JObj _ \<Rightarrow> False | _ \<Rightarrow> True)"

definition num_of :: "json \<Rightarrow> int option" where
  "num_of v = (case v of JInt i \<Rightarrow> Some i | JBool b \<Rightarrow> Some (if b then 1 else 0) | _ \<Rightarrow> None)"

text \<open>Python's \<^verbatim>\<open>==\<close> when one side is hashable: \<^verbatim>\<open>True == 1\<close> and \<^verbatim>\<open>False == 0\<close>.\<close>

definition py_eq :: "json \<Rightarrow> json \<Rightarrow> bool" where
  "py_eq a b = (case (num_of a, num_of b) of
       (Some x, Some y) \<Rightarrow> x = y
     | (None, None) \<Rightarrow> a = b
     | _ \<Rightarrow> False)"

text \<open>\<^verbatim>\<open>d.get(k, default)\<close>: only a dict has the method.\<close>

definition py_get :: "json \<Rightarrow> string \<Rightarrow> json \<Rightarrow> error + json" where
  "py_get d k dflt = (case d of
       JObj kvs \<Rightarrow> Inr (case map_of kvs k of Some v \<Rightarrow> v | None \<Rightarrow> dflt)
     | _ \<Rightarrow> Inl (PyError AttributeError))"

text \<open>\<^verbatim>\<open>d[k]\<close> with a string \<open>k\<close>.\<close>

definition py_index :: "json \<Rightarrow> string \<Rightarrow> error + json" where
  "py_index d k = (case d of
       JObj kvs \<Rightarrow> (case map_of kvs k of Some v \<Rightarrow> Inr v | None \<Rightarrow> Inl (PyError KeyError))
     | _ \<Rightarrow> Inl (PyError TypeError))"

definition is_cont :: "char \<Rightarrow> bool" where
  "is_cont c = (128 \<le> (of_char c :: nat) \<and> (of_char c :: nat) < 192)"

text \<open>The characters of a string: its UTF-8 bytes cut before every byte that starts a code point.\<close>

function utf8_chars :: "string \<Rightarrow> string list" where
  "utf8_chars [] = []"
| "utf8_chars (c # cs) = (c # takeWhile is_cont cs) # utf8_chars (dropWhile is_cont cs)"
  by pat_completeness auto
termination
  by (relation "measure length") (auto simp: length_dropWhile_le less_Suc_eq_le)

text \<open>What a \<^verbatim>\<open>for\<close> loop (or \<^verbatim>\<open>set(...)\<close>) iterates over.\<close>

definition py_iter :: "json \<Rightarrow> error + json list" where
  "py_iter v = (case v of
       JArr xs \<Rightarrow> Inr xs
     | JStr s \<Rightarrow> Inr (map JStr (utf8_chars s))
     | JObj kvs \<Rightarrow> Inr (map (JStr \<circ> fst) kvs)
     | _ \<Rightarrow> Inl (PyError TypeError))"

type_synonym pyset = "json list"

definition py_set_mem :: "json \<Rightarrow> pyset \<Rightarrow> error + bool" where
  "py_set_mem v s = (if hashable v then Inr (list_ex (py_eq v) s) else Inl (PyError TypeError))"

definition py_set_add :: "json \<Rightarrow> pyset \<Rightarrow> error + pyset" where
  "py_set_add v s =
     (if hashable v then Inr (if list_ex (py_eq v) s then s else s @ [v])
      else Inl (PyError TypeError))"

fun py_set_from :: "json list \<Rightarrow> pyset \<Rightarrow> error + pyset" where
  "py_set_from [] s = Inr s"
| "py_set_from (v # vs) s = bnd (py_set_add v s) (py_set_from vs)"

definition py_set :: "json \<Rightarrow> error + pyset" where
  "py_set v = bnd (py_iter v) (\<lambda>xs. py_set_from xs [])"

definition py_set_diff :: "pyset \<Rightarrow> pyset \<Rightarrow> pyset" where
  "py_set_diff a b = filter (\<lambda>x. \<not> list_ex (py_eq x) b) a"

definition is_str :: "json \<Rightarrow> bool" where
  "is_str v = (case v of JStr _ \<Rightarrow> True | _ \<Rightarrow> False)"

definition str_of :: "json \<Rightarrow> string" where
  "str_of v = (case v of JStr s \<Rightarrow> s | _ \<Rightarrow> [])"

definition int_of :: "json \<Rightarrow> int" where
  "int_of v = (case num_of v of Some i \<Rightarrow> i | None \<Rightarrow> 0)"

text \<open>
  \<^verbatim>\<open>sorted(s)\<close> of a set: strings are ordered among themselves, so are integers and
  booleans; a set of one element needs no comparison; any other set makes a comparison
  raise \<^verbatim>\<open>TypeError\<close>.
\<close>

definition py_sorted :: "pyset \<Rightarrow> error + json list" where
  "py_sorted s =
     (if length s \<le> 1 then Inr s
      else if list_all is_str s then Inr (map JStr (sort (map str_of s)))
      else if list_all (\<lambda>v. num_of v \<noteq> None) s then Inr (sort_key int_of s)
      else Inl (PyError TypeError))"

text \<open>\<^verbatim>\<open>n < q\<close> for an integer \<open>n\<close> and a JSON value \<open>q\<close>.\<close>

definition py_int_lt :: "int \<Rightarrow> json \<Rightarrow> error + bool" where
  "py_int_lt n q = (case num_of q of Some i \<Rightarrow> Inr (n < i) | None \<Rightarrow> Inl (PyError TypeError))"

fun is_substring :: "string \<Rightarrow> string \<Rightarrow> bool" where
  "is_substring xs [] = (xs = [])"
| "is_substring xs (y # ys) = (take (length xs) (y # ys) = xs \<or> is_substring xs ys)"

text \<open>\<^verbatim>\<open>x in c\<close> for a hashable \<open>x\<close>.\<close>

definition py_in :: "json \<Rightarrow> json \<Rightarrow> error + bool" where
  "py_in x c = (case c of
       JObj kvs \<Rightarrow> Inr (list_ex (\<lambda>k. py_eq x (JStr k)) (map fst kvs))
     | JArr xs \<Rightarrow> Inr (list_ex (py_eq x) xs)
     | JStr s \<Rightarrow> (case x of JStr t \<Rightarrow> Inr (is_substring t s) | _ \<Rightarrow> Inl (PyError TypeError))
     | _ \<Rightarrow> Inl (PyError TypeError))"

subsection \<open>Decimal rendering\<close>

definition digit_char :: "nat \<Rightarrow> char" where
  "digit_char d = char_of (48 + d)"

text \<open>\<^verbatim>\<open>str(n)\<close> for a natural number \<open>n\<close>.\<close>

function str_nat :: "nat \<Rightarrow> string" where
  "str_nat n = (if n < 10 then [digit_char n] else str_nat (n div 10) @ [digit_char (n mod 10)])"
  by pat_completeness auto
termination
  by (relation "measure id") auto

declare str_nat.simps [simp del]

definition str_int :: "int \<Rightarrow> string" where
  "str_int i = (if i < 0 then CHR ''-'' # str_nat (nat (- i)) else str_nat (nat i))"

text \<open>What \<^verbatim>\<open>f"{v}"\<close> renders.\<close>

definition py_format :: "lib \<Rightarrow> json \<Rightarrow> string" where
  "py_format L v = (case v of
       JStr s \<Rightarrow> s
     | JInt i \<Rightarrow> str_int i
     | JBool b \<Rightarrow> (if b then ''True'' else ''False'')
     | JNull \<Rightarrow> ''None''
     | _ \<Rightarrow> py_repr L v)"

subsection \<open>Message Authenticator: \<^verbatim>\<open>dsse_pae\<close>\<close>

definition PAYLOAD_TYPE :: string where
  "PAYLOAD_TYPE = ''application/vnd.in-toto+json''"

definition encode_utf8 :: "string \<Rightarrow> byte list" where
  "encode_utf8 s = map of_char s"

definition enc :: "byte list \<Rightarrow> byte list" where
  "enc part = encode_utf8 (str_nat (length part)) @ encode_utf8 '' '' @ part"

definition dsse_pae :: "string \<Rightarrow> string \<Rightarrow> byte list" where
  "dsse_pae payload_type payload_b64 =
     (let pt = encode_utf8 payload_type;
          pb = encode_utf8 payload_b64
      in encode_utf8 ''DSSEv1 '' @ enc pt @ encode_utf8 '' '' @ enc pb)"

subsection \<open>Signature Verifier and statement decoding\<close>

text \<open>\<^verbatim>\<open>base64.b64decode(v)\<close>: a value that is not a string raises \<^verbatim>\<open>TypeError\<close>.\<close>

definition py_b64decode :: "lib \<Rightarrow> json \<Rightarrow> error + byte list" where
  "py_b64decode L v = (case v of
       JStr s \<Rightarrow> (case b64decode L s of None \<Rightarrow> Inl (PyError Base64Error) | Some b \<Rightarrow> Inr b)
     | _ \<Rightarrow> Inl (PyError TypeError))"

text \<open>
  \<^verbatim>\<open>verify_signature\<close> (lines 68-93). \<^verbatim>\<open>run_openssl\<close> runs the process with
  \<^verbatim>\<open>check=True\<close>: a non-zero exit status raises \<^verbatim>\<open>CalledProcessError\<close>.
  A payload that is not a string has no \<^verbatim>\<open>encode\<close> method.
\<close>

definition verify_signature :: "lib \<Rightarrow> json \<Rightarrow> json \<Rightarrow> json \<Rightarrow> error + unit" where
  "verify_signature L pub_key_b64 payload_b64 signature_b64 =
     (case payload_b64 of
        JStr p \<Rightarrow>
          (let payload_bytes = dsse_pae PAYLOAD_TYPE p in
           bnd (py_b64decode L pub_key_b64) (\<lambda>pub_der.
           bnd (py_b64decode L signature_b64) (\<lambda>signature.
             if openssl_verify L pub_der signature payload_bytes then Inr ()
             else Inl (PyError CalledProcessError))))
      | _ \<Rightarrow> Inl (PyError AttributeError))"

text \<open>\<^verbatim>\<open>decode_statement\<close> (lines 96-98).\<close>

definition decode_statement :: "lib \<Rightarrow> json \<Rightarrow> error + json" where
  "decode_statement L attestation =
     bnd (py_index attestation ''payload'') (\<lambda>p.
     bnd (py_b64decode L p) (\<lambda>raw.
       case decode_utf8 L raw of
         None \<Rightarrow> Inl (PyError UnicodeDecodeError)
       | Some payload \<Rightarrow>
           (case json_loads L payload of
              None \<Rightarrow> Inl (PyError JSONDecodeError)
            | Some statement \<Rightarrow> Inr statement)))"

subsection \<open>Trust Store Index: \<^verbatim>\<open>trust_store_keys\<close>\<close>

text \<open>
  The dict \<^verbatim>\<open>keys\<close> has hashable keys of any type; it is a list of pairs, the
  latest assignment first, looked up with Python's \<^verbatim>\<open>==\<close>.
\<close>

type_synonym pydict = "(json \<times> json) list"

definition py_dict_set :: "pydict \<Rightarrow> json \<Rightarrow> json \<Rightarrow> error + pydict" where
  "py_dict_set d k v = (if hashable k then Inr ((k, v) # d) else Inl (PyError TypeError))"

definition py_dict_mem :: "json \<Rightarrow> pydict \<Rightarrow> error + bool" where
  "py_dict_mem k d =
     (if hashable k then Inr (list_ex (\<lambda>kv. py_eq k (fst kv)) d) else Inl (PyError TypeError))"

definition py_dict_index :: "pydict \<Rightarrow> json \<Rightarrow> error + json" where
  "py_dict_index d k =
     (if hashable k then
        (case find (\<lambda>kv. py_eq k (fst kv)) d of
           None \<Rightarrow> Inl (PyError KeyError)
         | Some kv \<Rightarrow> Inr (snd kv))
      else Inl (PyError TypeError))"

definition py_values :: "json \<Rightarrow> error + json list" where
  "py_values d = (case d of JObj kvs \<Rightarrow> Inr (map snd kvs) | _ \<Rightarrow> Inl (PyError AttributeError))"

fun entry_loop :: "json list \<Rightarrow> pydict \<Rightarrow> error + pydict" where
  "entry_loop [] keys = Inr keys"
| "entry_loop (entry # rest) keys =
     bnd (py_get entry ''id'' JNull) (\<lambda>key_id.
     bnd (if py_truthy key_id then py_in (JStr ''publicKey'') entry else Inr False) (\<lambda>has_key.
       if has_key then
         bnd (py_index entry ''publicKey'') (\<lambda>pk.
         bnd (py_dict_set keys key_id pk) (entry_loop rest))
       else entry_loop rest keys))"

fun role_loop :: "json list \<Rightarrow> pydict \<Rightarrow> error + pydict" where
  "role_loop [] keys = Inr keys"
| "role_loop (role_keys # rest) keys =
     bnd (py_iter role_keys) (\<lambda>entries.
     bnd (entry_loop entries keys) (role_loop rest))"

definition trust_store_keys :: "json \<Rightarrow> error + pydict" where
  "trust_store_keys trust_store =
     bnd (py_get trust_store ''keys'' (JObj [])) (\<lambda>k.
     bnd (py_values k) (\<lambda>roles. role_loop roles []))"

subsection \<open>Bundle Validator: \<^verbatim>\<open>sanity_check_bundle\<close>\<close>

definition is_list :: "json \<Rightarrow> bool" where
  "is_list v = (case v of JArr _ \<Rightarrow> True | _ \<Rightarrow> False)"

text \<open>
  \<^verbatim>\<open>not isinstance(bundle.get(f), list) or not bundle[f]\<close>: the subscript is
  evaluated only when the first test is false.
\<close>

definition not_a_filled_list :: "json \<Rightarrow> string \<Rightarrow> error + bool" where
  "not_a_filled_list bundle f =
     bnd (py_get bundle f JNull) (\<lambda>v.
       if \<not> is_list v then Inr True
       else bnd (py_index bundle f) (\<lambda>w. Inr (\<not> py_truthy w)))"

definition sanity_check_bundle :: "json \<Rightarrow> error + unit" where
  "sanity_check_bundle bundle =
     bnd (py_get bundle ''mediaType'' JNull) (\<lambda>media_type.
     if media_type \<noteq> JStr ''application/vnd.verified-container.bundle+json'' then
       Inl (GateError ''invalid mediaType'' ''ERR_POLICY_DENIED'' [(''field'', JStr ''mediaType'')])
     else
     bnd (py_get bundle ''version'' JNull) (\<lambda>version.
     if version \<noteq> JStr ''0.1.0'' then
       Inl (GateError ''unsupported bundle version'' ''ERR_POLICY_DENIED'' [(''field'', JStr ''version'')])
     else
     bnd (not_a_filled_list bundle ''attestations'') (\<lambda>bad_attestations.
     if bad_attestations then
       Inl (GateError ''attestations required'' ''ERR_POLICY_DENIED'' [(''field'', JStr ''attestations'')])
     else
     bnd (not_a_filled_list bundle ''logEntries'') (\<lambda>bad_log_entries.
     if bad_log_entries then
       Inl (GateError ''logEntries required'' ''ERR_POLICY_DENIED'' [(''field'', JStr ''logEntries'')])
     else Inr ()))))"

subsection \<open>Policy Evaluation Engine: \<^verbatim>\<open>verify_policy\<close>\<close>

text \<open>The set comprehension of line 120.\<close>

fun log_id_loop :: "json list \<Rightarrow> pyset \<Rightarrow> error + pyset" where
  "log_id_loop [] s = Inr s"
| "log_id_loop (entry # rest) s =
     bnd (py_index entry ''logId'') (\<lambda>log_id.
     bnd (py_set_add log_id s) (log_id_loop rest))"

definition bundle_log_ids :: "json \<Rightarrow> error + pyset" where
  "bundle_log_ids bundle =
     bnd (py_get bundle ''logEntries'' (JArr [])) (\<lambda>le.
     bnd (py_iter le) (\<lambda>entries. log_id_loop entries []))"

text \<open>The loop of lines 127-133.\<close>

fun log_loop :: "json \<Rightarrow> json list \<Rightarrow> error + unit" where
  "log_loop trust_store [] = Inr ()"
| "log_loop trust_store (log_id # rest) =
     bnd (py_get trust_store ''logs'' (JObj [])) (\<lambda>logs.
     bnd (py_in log_id logs) (\<lambda>known.
       if \<not> known then
         Inl (GateError ''unknown log operator'' ''ERR_POLICY_DENIED'' [(''logId'', log_id)])
       else log_loop trust_store rest))"

record ctx =
  required_predicates :: pyset
  allowed_signers :: pyset
  log_quorum :: json
  keys :: pydict
  log_ids :: pyset

text \<open>Lines 113-120: the local variables set before the first check of the engine.\<close>

definition gate_inputs :: "json \<Rightarrow> json \<Rightarrow> json \<Rightarrow> error + ctx" where
  "gate_inputs bundle policy trust_store =
     bnd (py_index policy ''requiredPredicates'') (\<lambda>rp.
     bnd (py_set rp) (\<lambda>required.
     bnd (py_index policy ''allowedSigners'') (\<lambda>als.
     bnd (py_set als) (\<lambda>allowed.
     bnd (py_get policy ''logQuorum'' (JInt 1)) (\<lambda>quorum.
     bnd (sanity_check_bundle bundle) (\<lambda>_.
     bnd (trust_store_keys trust_store) (\<lambda>ks.
     bnd (bundle_log_ids bundle) (\<lambda>ids.
       Inr \<lparr>required_predicates = required, allowed_signers = allowed,
            log_quorum = quorum, keys = ks, log_ids = ids\<rparr>))))))))"

text \<open>Lines 113-133: the inputs, then the quorum check and the log operator check.\<close>

definition gate_checks :: "lib \<Rightarrow> json \<Rightarrow> json \<Rightarrow> json \<Rightarrow> error + ctx" where
  "gate_checks L bundle policy trust_store =
     bnd (gate_inputs bundle policy trust_store) (\<lambda>c.
     bnd (py_int_lt (int (length (log_ids c))) (log_quorum c)) (\<lambda>below.
       if below then
         Inl (GateError ''log quorum not satisfied'' ''ERR_POLICY_DENIED''
               [(''required'', log_quorum c), (''observed'', JInt (int (length (log_ids c))))])
       else
         bnd (log_loop trust_store (set_order L (log_ids c))) (\<lambda>_. Inr c)))"

record acc =
  seen_predicates :: pyset
  seen_signers :: pyset
  missing_subjects :: "json list"

text \<open>The loop of lines 141-144.\<close>

fun subject_loop :: "lib \<Rightarrow> string \<Rightarrow> json list \<Rightarrow> json list \<Rightarrow> error + json list" where
  "subject_loop L image_digest [] missing = Inr missing"
| "subject_loop L image_digest (subject # rest) missing =
     bnd (py_get subject ''digest'' (JObj [])) (\<lambda>d.
     bnd (py_get d ''sha256'' JNull) (\<lambda>digest.
       subject_loop L image_digest rest
         (if py_truthy digest \<and> ''sha256:'' @ py_format L digest \<noteq> image_digest
          then missing @ [digest] else missing)))"

text \<open>
  Line 152: \<^verbatim>\<open>verify_signature(keys[key_id], attestation["payload"], signature["sig"])\<close>,
  the arguments evaluated from left to right.
\<close>

definition call_verify :: "lib \<Rightarrow> pydict \<Rightarrow> json \<Rightarrow> json \<Rightarrow> json \<Rightarrow> error + unit" where
  "call_verify L ks attestation signature key_id =
     bnd (py_dict_index ks key_id) (\<lambda>pub.
     bnd (py_index attestation ''payload'') (\<lambda>payload.
     bnd (py_index signature ''sig'') (\<lambda>sg.
       verify_signature L pub payload sg)))"

text \<open>
  The loop of lines 147-154; the result is \<^verbatim>\<open>valid_signature\<close> and the updated
  \<^verbatim>\<open>seen_signers\<close>. The second operand of \<^verbatim>\<open>and\<close> is evaluated only when the
  first is true.
\<close>

fun signature_loop ::
  "lib \<Rightarrow> pyset \<Rightarrow> pydict \<Rightarrow> json \<Rightarrow> json list \<Rightarrow> pyset \<Rightarrow> error + (bool \<times> pyset)" where
  "signature_loop L allowed ks attestation [] seen = Inr (False, seen)"
| "signature_loop L allowed ks attestation (signature # rest) seen =
     bnd (py_get signature ''keyid'' JNull) (\<lambda>key_id.
     bnd (if py_truthy key_id then py_set_add key_id seen else Inr seen) (\<lambda>seen'.
     bnd (py_set_mem key_id allowed) (\<lambda>is_allowed.
     bnd (if is_allowed then py_dict_mem key_id ks else Inr False) (\<lambda>usable.
       if usable then
         bnd (call_verify L ks attestation signature key_id) (\<lambda>_. Inr (True, seen'))
       else signature_loop L allowed ks attestation rest seen'))))"

text \<open>
  Lines 139-144 of the loop body: the statement, its predicate type and its subjects. The
  result is the updated \<^verbatim>\<open>seen_predicates\<close> and \<^verbatim>\<open>missing_subjects\<close>.
\<close>

definition read_statement ::
  "lib \<Rightarrow> string \<Rightarrow> json \<Rightarrow> acc \<Rightarrow> error + (pyset \<times> json list)" where
  "read_statement L image_digest attestation st =
     bnd (decode_statement L attestation) (\<lambda>statement.
     bnd (py_get statement ''predicateType'' JNull) (\<lambda>pt.
     bnd (py_set_add pt (seen_predicates st)) (\<lambda>preds.
     bnd (py_get statement ''subject'' (JArr [])) (\<lambda>sj.
     bnd (py_iter sj) (\<lambda>subjects.
     bnd (subject_loop L image_digest subjects (missing_subjects st)) (\<lambda>missing.
       Inr (preds, missing)))))))"

definition attestation_signatures :: "json \<Rightarrow> error + json list" where
  "attestation_signatures attestation =
     bnd (py_get attestation ''signatures'' (JArr [])) py_iter"

text \<open>The body of the loop over the attestations, lines 139-160.\<close>

definition scan_attestation ::
  "lib \<Rightarrow> string \<Rightarrow> pyset \<Rightarrow> pydict \<Rightarrow> json \<Rightarrow> acc \<Rightarrow> error + acc" where
  "scan_attestation L image_digest allowed ks attestation st =
     bnd (read_statement L image_digest attestation st) (\<lambda>pm.
     bnd (attestation_signatures attestation) (\<lambda>signatures.
     bnd (signature_loop L allowed ks attestation signatures (seen_signers st)) (\<lambda>r.
       if \<not> fst r then
         bnd (py_sorted allowed) (\<lambda>a.
         bnd (py_sorted (snd r)) (\<lambda>s.
           Inl (GateError ''no valid signature for allowed signer'' ''ERR_POLICY_DENIED''
                 [(''allowed'', JArr a), (''seen'', JArr s)])))
       else
         Inr \<lparr>seen_predicates = fst pm, seen_signers = snd r, missing_subjects = snd pm\<rparr>)))"

fun attestation_loop ::
  "lib \<Rightarrow> string \<Rightarrow> pyset \<Rightarrow> pydict \<Rightarrow> json list \<Rightarrow> acc \<Rightarrow> error + acc" where
  "attestation_loop L image_digest allowed ks [] st = Inr st"
| "attestation_loop L image_digest allowed ks (attestation # rest) st =
     bnd (scan_attestation L image_digest allowed ks attestation st)
         (attestation_loop L image_digest allowed ks rest)"

definition bundle_attestations :: "json \<Rightarrow> error + json list" where
  "bundle_attestations bundle =
     bnd (py_get bundle ''attestations'' (JArr [])) py_iter"

record report =
  predicates :: "json list"
  signers :: "json list"
  logIds :: "json list"

text \<open>Lines 162-181.\<close>

definition conclude :: "string \<Rightarrow> ctx \<Rightarrow> acc \<Rightarrow> error + report" where
  "conclude image_digest c st =
     (if missing_subjects st \<noteq> [] then
        Inl (GateError ''subject digest mismatch'' ''ERR_POLICY_DENIED''
              [(''expected'', JStr image_digest), (''observed'', JArr (missing_subjects st))])
      else
        (let missing_predicates = py_set_diff (required_predicates c) (seen_predicates st) in
         if missing_predicates \<noteq> [] then
           bnd (py_sorted missing_predicates) (\<lambda>m.
             Inl (GateError ''missing required predicates'' ''ERR_POLICY_DENIED''
                   [(''missing'', JArr m)]))
         else
           bnd (py_sorted (seen_predicates st)) (\<lambda>p.
           bnd (py_sorted (seen_signers st)) (\<lambda>s.
           bnd (py_sorted (log_ids c)) (\<lambda>l.
             Inr \<lparr>predicates = p, signers = s, logIds = l\<rparr>)))))"

definition init_acc :: acc where
  "init_acc = \<lparr>seen_predicates = [], seen_signers = [], missing_subjects = []\<rparr>"

definition verify_policy :: "lib \<Rightarrow> json \<Rightarrow> json \<Rightarrow> json \<Rightarrow> string \<Rightarrow> error + report" where
  "verify_policy L bundle policy trust_store image_digest =
     bnd (gate_checks L bundle policy trust_store) (\<lambda>c.
     bnd (bundle_attestations bundle) (\<lambda>attestations.
     bnd (attestation_loop L image_digest (allowed_signers c) (keys c) attestations init_acc)
         (conclude image_digest c)))"

subsection \<open>A test double for the library and example documents\<close>

text \<open>
  A table-driven stand-in for the library, in the way the engine is meant to be tested
  with a fake verifier: base64 texts and JSON texts outside the tables are rejected,
  only ASCII bytes decode as UTF-8, and the verifier accepts exactly the listed
  (key, signature, message) triples. Sets are visited in insertion order.
\<close>

definition statement_b64 :: string where
  "statement_b64 =
     ''eyJwcmVkaWNhdGVUeXBlIjoicHJvdmVuYW5jZSIsInN1YmplY3QiOlt7ImRpZ2VzdCI6eyJzaGEyNTYiOiJhYjEyIn19XX0=''"

definition statement_text :: string where
  \<open>statement_text =
     ''{"predicateType":"provenance","subject":[{"digest":{"sha256":"ab12"}}]}''\<close>

definition statement_json :: json where
  "statement_json =
     JObj [(''predicateType'', JStr ''provenance''),
           (''subject'', JArr [JObj [(''digest'', JObj [(''sha256'', JStr ''ab12'')])]])]"

definition b64_table :: "(string \<times> byte list) list" where
  "b64_table =
     [(statement_b64, encode_utf8 statement_text),
      (''bm90IGpzb24='', encode_utf8 ''not json''),
      (''a2V5LW9uZQ=='', encode_utf8 ''key-one''),
      (''a2V5LXR3bw=='', encode_utf8 ''key-two''),
      (''c2lnLW9uZQ=='', encode_utf8 ''sig-one''),
      (''c2lnLWJhZA=='', encode_utf8 ''sig-bad'')]"

definition ascii_decode :: "byte list \<Rightarrow> string option" where
  "ascii_decode bs =
     (if list_all (\<lambda>b. unat b < 128) bs then Some (map (\<lambda>b. char_of (unat b)) bs) else None)"

definition json_table :: "(string \<times> json) list" where
  "json_table = [(statement_text, statement_json)]"

definition accepted :: "(byte list \<times> byte list \<times> byte list) list" where
  "accepted =
     [(encode_utf8 ''key-one'', encode_utf8 ''sig-one'', dsse_pae PAYLOAD_TYPE statement_b64)]"

definition fake_verifier :: "byte list \<Rightarrow> byte list \<Rightarrow> byte list \<Rightarrow> bool" where
  "fake_verifier pub_der signature message = ((pub_der, signature, message) \<in> set accepted)"

definition insertion_order :: "json list \<Rightarrow> json list" where
  "insertion_order xs = xs"

definition no_repr :: "json \<Rightarrow> string" where
  "no_repr v = []"

definition test_lib :: lib where
  "test_lib =
     \<lparr>b64decode = map_of b64_table, decode_utf8 = ascii_decode, json_loads = map_of json_table,
      openssl_verify = fake_verifier, py_repr = no_repr, set_order = insertion_order\<rparr>"

definition signature_k1 :: json where
  "signature_k1 = JObj [(''keyid'', JStr ''k1''), (''sig'', JStr ''c2lnLW9uZQ=='')]"

definition attestation_ok :: json where
  "attestation_ok = JObj [(''payload'', JStr statement_b64), (''signatures'', JArr [signature_k1])]"

definition bundle_with :: "json list \<Rightarrow> json list \<Rightarrow> json" where
  "bundle_with attestations log_entries =
     JObj [(''mediaType'', JStr ''application/vnd.verified-container.bundle+json''),
           (''version'', JStr ''0.1.0''),
           (''attestations'', JArr attestations),
           (''logEntries'', JArr log_entries)]"

definition log_a :: json where
  "log_a = JObj [(''logId'', JStr ''log-a'')]"

definition bundle_ok :: json where
  "bundle_ok = bundle_with [attestation_ok] [log_a]"

definition policy_with :: "string list \<Rightarrow> string list \<Rightarrow> int \<Rightarrow> json" where
  "policy_with required allowed quorum =
     JObj [(''requiredPredicates'', JArr (map JStr required)),
           (''allowedSigners'', JArr (map JStr allowed)),
           (''logQuorum'', JInt quorum)]"

definition policy_ok :: json where
  "policy_ok = policy_with [''provenance''] [''k1''] 1"

definition trust_store_ok :: json where
  "trust_store_ok =
     JObj [(''keys'', JObj [(''release'',
              JArr [JObj [(''id'', JStr ''k1''), (''publicKey'', JStr ''a2V5LW9uZQ=='')],
                    JObj [(''id'', JStr ''k2''), (''publicKey'', JStr ''a2V5LXR3bw=='')]])]),
           (''logs'', JObj [(''log-a'', JObj [])])]"

definition signature_of :: "string \<Rightarrow> string \<Rightarrow> json" where
  "signature_of keyid sig_b64 = JObj [(''keyid'', JStr keyid), (''sig'', JStr sig_b64)]"

definition attestation_with :: "string \<Rightarrow> json list \<Rightarrow> json" where
  "attestation_with payload_b64 sgs = JObj [(''payload'', JStr payload_b64), (''signatures'', JArr sgs)]"

text \<open>
  An attestation whose signature does not verify, one with three signatures of which the
  second verifies, one whose payload is not base64 (three characters: incorrect padding)
  and one whose payload decodes to the text \<^verbatim>\<open>not json\<close>.
\<close>

definition attestation_bad_sig :: json where
  "attestation_bad_sig = attestation_with statement_b64 [signature_of ''k1'' ''c2lnLWJhZA=='']"

definition attestation_three :: json where
  "attestation_three =
     attestation_with statement_b64
       [signature_of ''k9'' ''c2lnLWJhZA=='', signature_k1, signature_of ''k2'' ''c2lnLWJhZA=='']"

definition attestation_undecodable :: json where
  "attestation_undecodable = attestation_with ''abc'' [signature_k1]"

definition attestation_not_json :: json where
  "attestation_not_json = attestation_with ''bm90IGpzb24='' [signature_k1]"

definition log_b :: json where
  "log_b = JObj [(''logId'', JStr ''log-b'')]"

definition keys_ok :: pydict where
  "keys_ok = [(JStr ''k2'', JStr ''a2V5LXR3bw==''), (JStr ''k1'', JStr ''a2V5LW9uZQ=='')]"

definition ctx_with :: "int \<Rightarrow> json list \<Rightarrow> ctx" where
  "ctx_with quorum ids =
     \<lparr>required_predicates = [JStr ''provenance''], allowed_signers = [JStr ''k1''],
      log_quorum = JInt quorum, keys = keys_ok, log_ids = ids\<rparr>"

subsection \<open>Reference notions used in the statements\<close>

text \<open>
  Two hashable values are equal for Python exactly when they have the same \<open>py_key\<close>;
  \<open>add_all vs s\<close> is the set \<open>s\<close> after adding the hashable values \<open>vs\<close> in order.
\<close>

definition py_key :: "json \<Rightarrow> json" where
  "py_key v = (case v of JBool b \<Rightarrow> JInt (if b then 1 else 0) | _ \<Rightarrow> v)"

fun add_all :: "json list \<Rightarrow> pyset \<Rightarrow> pyset" where
  "add_all [] s = s"
| "add_all (v # vs) s = add_all vs (if list_ex (py_eq v) s then s else s @ [v])"

text \<open>The log entries of a bundle, the \<open>logId\<close> of an entry, and a log operator of the trust store.\<close>

definition bundle_log_entries :: "json \<Rightarrow> json list" where
  "bundle_log_entries bundle =
     (case bnd (py_get bundle ''logEntries'' (JArr [])) py_iter of Inr es \<Rightarrow> es | Inl _ \<Rightarrow> [])"

definition entry_log_id :: "json \<Rightarrow> json" where
  "entry_log_id e = (case py_index e ''logId'' of Inr v \<Rightarrow> v | Inl _ \<Rightarrow> JNull)"

definition recognized :: "json \<Rightarrow> json \<Rightarrow> bool" where
  "recognized trust_store l =
     (case py_get trust_store ''logs'' (JObj []) of
        Inr logs \<Rightarrow> py_in l logs = Inr True
      | Inl _ \<Rightarrow> False)"

definition is_digit :: "char \<Rightarrow> bool" where
  "is_digit c = (48 \<le> (of_char c :: nat) \<and> (of_char c :: nat) \<le> 57)"

text \<open>A decimal numeral: digits only, at least one, no leading zero except for \<open>0\<close> itself.\<close>

definition is_decimal :: "string \<Rightarrow> bool" where
  "is_decimal s = (s \<noteq> [] \<and> list_all is_digit s \<and> (length s = 1 \<or> hd s \<noteq> CHR ''0''))"

definition decimal_value :: "string \<Rightarrow> nat" where
  "decimal_value s = foldl (\<lambda>a c. 10 * a + (of_char c - 48)) 0 s"

text \<open>
  The signatures of an attestation, the \<open>keyid\<close> of a signature, and a key identifier that
  is both in the allowed signers and in the key index.
\<close>

definition signatures_of :: "json \<Rightarrow> json list" where
  "signatures_of a = (case attestation_signatures a of Inr sgs \<Rightarrow> sgs | Inl _ \<Rightarrow> [])"

definition keyid_of :: "json \<Rightarrow> json" where
  "keyid_of sg = (case py_get sg ''keyid'' JNull of Inr k \<Rightarrow> k | Inl _ \<Rightarrow> JNull)"

definition usable :: "pyset \<Rightarrow> pydict \<Rightarrow> json \<Rightarrow> bool" where
  "usable allowed ks k = (py_set_mem k allowed = Inr True \<and> py_dict_mem k ks = Inr True)"

text \<open>The signatures of a list up to and including the first one with a usable key identifier.\<close>

fun scanned :: "pyset \<Rightarrow> pydict \<Rightarrow> json list \<Rightarrow> json list" where
  "scanned allowed ks [] = []"
| "scanned allowed ks (sg # rest) =
     sg # (if usable allowed ks (keyid_of sg) then [] else scanned allowed ks rest)"

text \<open>The non-empty key identifiers met while scanning the attestations of a bundle.\<close>

definition observed_keyids :: "pyset \<Rightarrow> pydict \<Rightarrow> json list \<Rightarrow> json list" where
  "observed_keyids allowed ks atts =
     filter py_truthy
       (concat (map (\<lambda>a. map keyid_of (scanned allowed ks (signatures_of a))) atts))"

text \<open>An attestation with a signature of a usable key that the Signature Verifier accepts.\<close>

definition signer_validated :: "lib \<Rightarrow> pyset \<Rightarrow> pydict \<Rightarrow> json \<Rightarrow> bool" where
  "signer_validated L allowed ks a =
     list_ex (\<lambda>sg. usable allowed ks (keyid_of sg)
                  \<and> call_verify L ks a sg (keyid_of sg) = Inr ()) (signatures_of a)"

text \<open>The predicate type and the subject digests of the statement of an attestation.\<close>

definition predicate_of :: "lib \<Rightarrow> json \<Rightarrow> json" where
  "predicate_of L a =
     (case bnd (decode_statement L a) (\<lambda>statement. py_get statement ''predicateType'' JNull) of
        Inr pt \<Rightarrow> pt
      | Inl _ \<Rightarrow> JNull)"

definition digest_of :: "json \<Rightarrow> json" where
  "digest_of subject =
     (case bnd (py_get subject ''digest'' (JObj [])) (\<lambda>d. py_get d ''sha256'' JNull) of
        Inr digest \<Rightarrow> digest
      | Inl _ \<Rightarrow> JNull)"

definition digests_of :: "lib \<Rightarrow> json \<Rightarrow> json list" where
  "digests_of L a =
     (case bnd (decode_statement L a) (\<lambda>statement.
             bnd (py_get statement ''subject'' (JArr [])) py_iter) of
        Inr subjects \<Rightarrow> map digest_of subjects
      | Inl _ \<Rightarrow> [])"

text \<open>The digests, among \<open>ds\<close>, that are present and differ from the image digest.\<close>

definition mismatches :: "lib \<Rightarrow> string \<Rightarrow> json list \<Rightarrow> json list" where
  "mismatches L image_digest ds =
     filter (\<lambda>digest. py_truthy digest \<and> ''sha256:'' @ py_format L digest \<noteq> image_digest) ds"

text \<open>An exception that is not a \<open>GateError\<close>; no handler of the script catches it.\<close>

definition uncaught :: "error \<Rightarrow> bool" where
  "uncaught e = (case e of PyError _ \<Rightarrow> True | GateError _ _ _ \<Rightarrow> False)"

text \<open>A signature that is a JSON object whose \<open>keyid\<close>, if any, is hashable.\<close>

definition well_keyed :: "json \<Rightarrow> bool" where
  "well_keyed sg = (case py_get sg ''keyid'' JNull of Inr k \<Rightarrow> hashable k | Inl _ \<Rightarrow> False)"

text \<open>A result that is a denial carrying the identifier \<^verbatim>\<open>ERR_POLICY_DENIED\<close>.\<close>

definition policy_denied :: "error + 'a \<Rightarrow> bool" where
  "policy_denied res =
     (case res of Inl (GateError _ error_id _) \<Rightarrow> error_id = ''ERR_POLICY_DENIED'' | _ \<Rightarrow> False)"

text \<open>The denial of line 156.\<close>

definition no_signer_denial :: "error \<Rightarrow> bool" where
  "no_signer_denial e =
     (case e of
        GateError message error_id _ \<Rightarrow>
          message = ''no valid signature for allowed signer'' \<and> error_id = ''ERR_POLICY_DENIED''
      | PyError _ \<Rightarrow> False)"

section \<open>Basic facts\<close>

lemma bnd_Inl [simp]: "bnd (Inl e) f = Inl e"
  by (simp add: bnd_def)

lemma bnd_Inr [simp]: "bnd (Inr x) f = f x"
  by (simp add: bnd_def)

lemma bnd_eq_Inr: "bnd m f = Inr y \<longleftrightarrow> (\<exists>x. m = Inr x \<and> f x = Inr y)"
  by (cases m) simp_all

lemma bnd_eq_Inl: "bnd m f = Inl e \<longleftrightarrow> m = Inl e \<or> (\<exists>x. m = Inr x \<and> f x = Inl e)"
  by (cases m) simp_all

section \<open>Message Authenticator\<close>

lemma of_char_digit_char: "d < 10 \<Longrightarrow> (of_char (digit_char d) :: nat) = 48 + d"
  by (simp add: digit_char_def)

lemma str_nat_digits: "list_all is_digit (str_nat n)"
proof (induction n rule: str_nat.induct)
  case (1 n)
  show ?case
  proof (cases "n < 10")
    case True
    then show ?thesis
      by (subst str_nat.simps) (simp add: is_digit_def of_char_digit_char)
  next
    case False
    then have "list_all is_digit (str_nat (n div 10))"
      using 1 by simp
    moreover have "is_digit (digit_char (n mod 10))"
      by (simp add: is_digit_def of_char_digit_char)
    ultimately show ?thesis
      using False by (subst str_nat.simps) simp
  qed
qed

lemma decimal_value_snoc: "decimal_value (s @ [c]) = 10 * decimal_value s + (of_char c - 48)"
  by (simp add: decimal_value_def)

lemma decimal_value_str_nat: "decimal_value (str_nat n) = n"
proof (induction n rule: str_nat.induct)
  case (1 n)
  show ?case
  proof (cases "n < 10")
    case True
    then show ?thesis
      by (subst str_nat.simps) (simp add: decimal_value_def of_char_digit_char)
  next
    case False
    then have "decimal_value (str_nat (n div 10)) = n div 10"
      using 1 by simp
    then show ?thesis
      using False by (subst str_nat.simps) (simp add: decimal_value_snoc of_char_digit_char)
  qed
qed

lemma str_nat_nonempty: "str_nat n \<noteq> []"
  by (subst str_nat.simps) simp

lemma hd_str_nat: "hd (str_nat n) = CHR ''0'' \<longleftrightarrow> n = 0"
proof (induction n rule: str_nat.induct)
  case (1 n)
  show ?case
  proof (cases "n < 10")
    case True
    have "digit_char n = CHR ''0'' \<longleftrightarrow> (of_char (digit_char n) :: nat) = of_char CHR ''0''"
      by (simp only: of_char_eq_iff)
    then show ?thesis
      using True by (subst str_nat.simps) (simp add: of_char_digit_char)
  next
    case False
    then have "hd (str_nat (n div 10)) = CHR ''0'' \<longleftrightarrow> n div 10 = 0"
      using 1 by simp
    then show ?thesis
      using False str_nat_nonempty[of "n div 10"]
      by (subst str_nat.simps) (simp add: hd_append)
  qed
qed

lemma length_str_nat_zero: "length (str_nat 0) = 1"
  by (subst str_nat.simps) simp

lemma is_decimal_str_nat: "is_decimal (str_nat n)"
  using str_nat_nonempty[of n] str_nat_digits[of n] hd_str_nat[of n] length_str_nat_zero
  by (auto simp: is_decimal_def)

lemma encode_utf8_append: "encode_utf8 (a @ b) = encode_utf8 a @ encode_utf8 b"
  by (simp add: encode_utf8_def)

lemma encode_utf8_space: "encode_utf8 '' '' = [32]"
  by (simp add: encode_utf8_def)

lemma dsse_pae_flat:
  "dsse_pae payload_type payload_b64 =
     encode_utf8 ''DSSEv1'' @ [32]
     @ encode_utf8 (str_nat (length (encode_utf8 payload_type))) @ [32]
     @ encode_utf8 payload_type @ [32]
     @ encode_utf8 (str_nat (length (encode_utf8 payload_b64))) @ [32]
     @ encode_utf8 payload_b64"
proof -
  have "encode_utf8 ''DSSEv1 '' = encode_utf8 ''DSSEv1'' @ [32]"
    using encode_utf8_append[of "''DSSEv1''" "'' ''"] by (simp add: encode_utf8_space)
  then show ?thesis
    by (simp add: dsse_pae_def enc_def Let_def encode_utf8_space)
qed

lemma unat_of_char: "unat (of_char c :: byte) = of_char c"
proof -
  have "(of_char c :: byte) = of_nat (of_char c)" by (simp add: of_nat_of_char)
  moreover have "(of_char c :: nat) < 256" by simp
  ultimately show ?thesis by (simp add: unat_of_nat)
qed

lemma encode_utf8_inj: "encode_utf8 a = encode_utf8 b \<Longrightarrow> a = b"
proof -
  assume h: "encode_utf8 a = encode_utf8 b"
  have "map unat (encode_utf8 s) = map of_char s" for s
    by (simp add: encode_utf8_def unat_of_char)
  with h have "map (of_char :: char \<Rightarrow> nat) a = map of_char b"
    by metis
  then show "a = b"
    by (metis inj_of_char inj_map_eq_map)
qed

lemma digit_not_space: "is_digit c \<Longrightarrow> c \<noteq> CHR '' ''"
  by (auto simp: is_digit_def)

lemma numeral_prefix:
  assumes "list_all is_digit a" "list_all is_digit b" "a @ CHR '' '' # x = b @ CHR '' '' # y"
  shows "a = b \<and> x = y"
proof -
  have a: "takeWhile (\<lambda>c. c \<noteq> CHR '' '') (a @ CHR '' '' # x) = a"
    using assms(1) by (induction a) (auto simp: digit_not_space)
  have b: "takeWhile (\<lambda>c. c \<noteq> CHR '' '') (b @ CHR '' '' # y) = b"
    using assms(2) by (induction b) (auto simp: digit_not_space)
  from a b assms(3) have "a = b" by simp
  with assms(3) show ?thesis by simp
qed

lemma dsse_pae_inj:
  assumes "dsse_pae payload_type p = dsse_pae payload_type p'"
  shows "p = p'"
proof -
  let ?h = "''DSSEv1 '' @ str_nat (length (encode_utf8 payload_type)) @ '' '' @ payload_type @ '' ''"
  have f: "dsse_pae payload_type q = encode_utf8 (?h @ str_nat (length q) @ CHR '' '' # q)" for q
    by (simp add: dsse_pae_def enc_def Let_def encode_utf8_def)
  from assms have "?h @ str_nat (length p) @ CHR '' '' # p = ?h @ str_nat (length p') @ CHR '' '' # p'"
    unfolding f by (rule encode_utf8_inj)
  then have "str_nat (length p) @ CHR '' '' # p = str_nat (length p') @ CHR '' '' # p'"
    by simp
  then show ?thesis
    using numeral_prefix[OF str_nat_digits str_nat_digits] by blast
qed

text \<open>
  C9. For every payload type and every base64 payload, \<open>dsse_pae\<close> returns the bytes of
  \<^verbatim>\<open>DSSEv1\<close>, a space, the length of the UTF-8 bytes of the payload type, a space, those
  bytes, a space, the length of the UTF-8 bytes of the payload, a space, and those bytes,
  with nothing after them. Each length is a decimal numeral (ASCII digits, no leading
  zero) whose value is the length. The result is a function of the two arguments only.
\<close>

theorem dsse_pae_format:
  "dsse_pae payload_type payload_b64 =
     encode_utf8 ''DSSEv1'' @ [32]
     @ encode_utf8 (str_nat (length (encode_utf8 payload_type))) @ [32]
     @ encode_utf8 payload_type @ [32]
     @ encode_utf8 (str_nat (length (encode_utf8 payload_b64))) @ [32]
     @ encode_utf8 payload_b64
   \<and> is_decimal (str_nat n) \<and> decimal_value (str_nat n) = n"
  using dsse_pae_flat is_decimal_str_nat decimal_value_str_nat by simp

theorem dsse_pae_format_witness:
  "dsse_pae PAYLOAD_TYPE ''e30='' = encode_utf8 ''DSSEv1 28 application/vnd.in-toto+json 4 e30=''
   \<and> is_decimal (str_nat 28) \<and> decimal_value (str_nat 28) = 28"
proof -
  have "encode_utf8 ''DSSEv1'' @ [32]
     @ encode_utf8 (str_nat (length (encode_utf8 PAYLOAD_TYPE))) @ [32]
     @ encode_utf8 PAYLOAD_TYPE @ [32]
     @ encode_utf8 (str_nat (length (encode_utf8 ''e30=''))) @ [32]
     @ encode_utf8 ''e30='' = encode_utf8 ''DSSEv1 28 application/vnd.in-toto+json 4 e30=''"
    by code_simp
  then show ?thesis
    using dsse_pae_format[of PAYLOAD_TYPE "''e30=''" 28] by simp
qed

section \<open>Bundle Validator\<close>

lemma not_a_filled_list_obj:
  "not_a_filled_list (JObj kvs) f = Inr (\<not> (\<exists>a as. map_of kvs f = Some (JArr (a # as))))"
  by (auto simp: not_a_filled_list_def py_get_def py_index_def is_list_def py_truthy_def
      neq_Nil_conv split: option.splits json.splits)

text \<open>
  C8. On a bundle (a JSON object) the Bundle Validator makes four checks in this order and
  stops at the first that fails: \<open>mediaType\<close> is the bundle media type, \<open>version\<close> is
  \<^verbatim>\<open>0.1.0\<close>, \<open>attestations\<close> is a present, non-empty list, \<open>logEntries\<close> is a present,
  non-empty list. A failure is a \<open>GateError\<close> with identifier \<^verbatim>\<open>ERR_POLICY_DENIED\<close> whose
  details name the field; a bundle that passes the four checks raises nothing.
\<close>

theorem sanity_check_bundle_checks:
  "sanity_check_bundle (JObj kvs) =
     (if map_of kvs ''mediaType'' \<noteq> Some (JStr ''application/vnd.verified-container.bundle+json'') then
        Inl (GateError ''invalid mediaType'' ''ERR_POLICY_DENIED'' [(''field'', JStr ''mediaType'')])
      else if map_of kvs ''version'' \<noteq> Some (JStr ''0.1.0'') then
        Inl (GateError ''unsupported bundle version'' ''ERR_POLICY_DENIED'' [(''field'', JStr ''version'')])
      else if \<not> (\<exists>a as. map_of kvs ''attestations'' = Some (JArr (a # as))) then
        Inl (GateError ''attestations required'' ''ERR_POLICY_DENIED'' [(''field'', JStr ''attestations'')])
      else if \<not> (\<exists>e es. map_of kvs ''logEntries'' = Some (JArr (e # es))) then
        Inl (GateError ''logEntries required'' ''ERR_POLICY_DENIED'' [(''field'', JStr ''logEntries'')])
      else Inr ())"
  unfolding sanity_check_bundle_def not_a_filled_list_obj
  by (simp add: py_get_def split: option.splits)

theorem sanity_check_bundle_checks_witness:
  "sanity_check_bundle bundle_ok = Inr ()
   \<and> sanity_check_bundle (JObj [(''mediaType'', JStr ''application/vnd.verified-container.bundle+json''),
        (''version'', JStr ''0.1.0''), (''attestations'', JArr []), (''logEntries'', JArr [])])
      = Inl (GateError ''attestations required'' ''ERR_POLICY_DENIED'' [(''field'', JStr ''attestations'')])"
  by (simp add: bundle_ok_def bundle_with_def sanity_check_bundle_checks)

section \<open>Python sets\<close>

lemma py_eq_key: "py_eq a b \<longleftrightarrow> py_key a = py_key b"
  by (cases a; cases b) (auto simp: py_eq_def py_key_def num_of_def)

lemma list_ex_py_eq: "list_ex (py_eq v) s \<longleftrightarrow> py_key v \<in> py_key ` set s"
  by (auto simp: list_ex_iff py_eq_key)

lemma py_set_add_Inr: "py_set_add v s = Inr s' \<longleftrightarrow> hashable v \<and> s' = add_all [v] s"
  by (auto simp: py_set_add_def)

lemma add_all_append: "add_all (xs @ ys) s = add_all ys (add_all xs s)"
  by (induction xs arbitrary: s) simp_all

lemma keys_add_all: "py_key ` set (add_all vs s) = py_key ` (set vs \<union> set s)"
  by (induction vs arbitrary: s) (auto simp: list_ex_py_eq)

lemma distinct_add_all: "distinct (map py_key s) \<Longrightarrow> distinct (map py_key (add_all vs s))"
  by (induction vs arbitrary: s) (auto simp: list_ex_py_eq)

lemma length_add_all_empty: "length (add_all vs []) = card (py_key ` set vs)"
proof -
  have "distinct (map py_key (add_all vs []))" by (rule distinct_add_all) simp
  then have "length (add_all vs []) = card (set (map py_key (add_all vs [])))"
    by (metis distinct_card length_map)
  also have "\<dots> = card (py_key ` set vs)" using keys_add_all[of vs "[]"] by simp
  finally show ?thesis .
qed

lemma py_set_from_Inr: "py_set_from vs s = Inr s' \<longleftrightarrow> list_all hashable vs \<and> s' = add_all vs s"
  by (induction vs arbitrary: s) (auto simp: bnd_eq_Inr py_set_add_Inr)

section \<open>Quorum and log operators\<close>

lemma log_id_loop_Inr:
  "log_id_loop es s = Inr ids \<Longrightarrow>
     ids = add_all (map entry_log_id es) s \<and> (\<forall>e\<in>set es. py_index e ''logId'' = Inr (entry_log_id e))"
proof (induction es arbitrary: s)
  case Nil
  then show ?case by simp
next
  case (Cons e es)
  from Cons.prems obtain v s1 where v: "py_index e ''logId'' = Inr v"
    and s1: "py_set_add v s = Inr s1" and rest: "log_id_loop es s1 = Inr ids"
    by (auto simp: bnd_eq_Inr)
  have ev: "entry_log_id e = v" using v by (simp add: entry_log_id_def)
  from s1 have "s1 = add_all [v] s" by (simp add: py_set_add_Inr)
  with Cons.IH[OF rest] ev v show ?case by simp
qed

lemma bundle_log_ids_Inr:
  assumes "bundle_log_ids bundle = Inr ids"
  shows "ids = add_all (map entry_log_id (bundle_log_entries bundle)) []"
    and "\<forall>e\<in>set (bundle_log_entries bundle). py_index e ''logId'' = Inr (entry_log_id e)"
proof -
  from assms obtain es where es: "bnd (py_get bundle ''logEntries'' (JArr [])) py_iter = Inr es"
    and loop: "log_id_loop es [] = Inr ids"
    by (auto simp: bundle_log_ids_def bnd_eq_Inr)
  have "bundle_log_entries bundle = es" using es by (simp add: bundle_log_entries_def)
  with log_id_loop_Inr[OF loop]
  show "ids = add_all (map entry_log_id (bundle_log_entries bundle)) []"
    and "\<forall>e\<in>set (bundle_log_entries bundle). py_index e ''logId'' = Inr (entry_log_id e)"
    by simp_all
qed

lemma gate_inputs_Inr:
  assumes "gate_inputs bundle policy trust_store = Inr c"
  shows "py_get policy ''logQuorum'' (JInt 1) = Inr (log_quorum c)"
    and "sanity_check_bundle bundle = Inr ()"
    and "trust_store_keys trust_store = Inr (keys c)"
    and "bundle_log_ids bundle = Inr (log_ids c)"
  using assms by (auto simp: gate_inputs_def bnd_eq_Inr)

lemma gate_inputs_sets:
  assumes "gate_inputs bundle policy trust_store = Inr c"
  shows "\<exists>rp. py_index policy ''requiredPredicates'' = Inr rp \<and> py_set rp = Inr (required_predicates c)"
    and "\<exists>als. py_index policy ''allowedSigners'' = Inr als \<and> py_set als = Inr (allowed_signers c)"
  using assms by (auto simp: gate_inputs_def bnd_eq_Inr)

lemma verify_policy_quorum:
  assumes "gate_inputs bundle policy trust_store = Inr c"
    and "log_quorum c = JInt q" and "int (length (log_ids c)) < q"
  shows "verify_policy L bundle policy trust_store image_digest =
     Inl (GateError ''log quorum not satisfied'' ''ERR_POLICY_DENIED''
           [(''required'', JInt q), (''observed'', JInt (int (length (log_ids c))))])"
  using assms by (simp add: verify_policy_def gate_checks_def py_int_lt_def num_of_def)

lemma log_loop_obj:
  assumes "py_get trust_store ''logs'' (JObj []) = Inr (JObj logs)"
  shows "log_loop trust_store xs =
     (case find (\<lambda>l. \<not> recognized trust_store l) xs of
        None \<Rightarrow> Inr ()
      | Some l \<Rightarrow> Inl (GateError ''unknown log operator'' ''ERR_POLICY_DENIED'' [(''logId'', l)]))"
  using assms by (induction xs) (auto simp: recognized_def py_in_def)

lemma recognized_obj:
  assumes "py_get trust_store ''logs'' (JObj []) = Inr (JObj logs)"
  shows "recognized trust_store l \<longleftrightarrow> (\<exists>k\<in>fst ` set logs. l = JStr k)"
  using assms by (cases l) (auto simp: recognized_def py_in_def list_ex_iff py_eq_def num_of_def)

lemma find_None_set: "find P xs = None \<longleftrightarrow> (\<forall>x\<in>set xs. \<not> P x)"
  by (auto simp: find_None_iff)

lemma find_Some_set: "find P xs = Some x \<Longrightarrow> x \<in> set xs \<and> P x"
  by (auto simp: find_Some_iff)

lemma verify_policy_logs:
  assumes gi: "gate_inputs bundle policy trust_store = Inr c"
    and q: "py_int_lt (int (length (log_ids c))) (log_quorum c) = Inr False"
    and logs: "py_get trust_store ''logs'' (JObj []) = Inr (JObj logs)"
    and ord: "set (set_order L (log_ids c)) = set (log_ids c)"
  shows "(\<exists>l\<in>set (log_ids c). \<not> recognized trust_store l) \<longrightarrow>
           (\<exists>l\<in>set (log_ids c). \<not> recognized trust_store l \<and>
              verify_policy L bundle policy trust_store image_digest =
                Inl (GateError ''unknown log operator'' ''ERR_POLICY_DENIED'' [(''logId'', l)]))"
    and "\<forall>r. verify_policy L bundle policy trust_store image_digest = Inr r \<longrightarrow>
           (\<forall>l\<in>set (log_ids c). recognized trust_store l)"
proof -
  let ?f = "find (\<lambda>l. \<not> recognized trust_store l) (set_order L (log_ids c))"
  have gc: "gate_checks L bundle policy trust_store =
      (case ?f of None \<Rightarrow> Inr c
       | Some l \<Rightarrow> Inl (GateError ''unknown log operator'' ''ERR_POLICY_DENIED'' [(''logId'', l)]))"
    using gi q by (simp add: gate_checks_def log_loop_obj[OF logs] split: option.splits)
  show "(\<exists>l\<in>set (log_ids c). \<not> recognized trust_store l) \<longrightarrow>
           (\<exists>l\<in>set (log_ids c). \<not> recognized trust_store l \<and>
              verify_policy L bundle policy trust_store image_digest =
                Inl (GateError ''unknown log operator'' ''ERR_POLICY_DENIED'' [(''logId'', l)]))"
  proof
    assume "\<exists>l\<in>set (log_ids c). \<not> recognized trust_store l"
    then have "?f \<noteq> None" using ord by (simp add: find_None_set)
    then obtain l where l: "?f = Some l" by auto
    then have "l \<in> set (log_ids c)" "\<not> recognized trust_store l"
      using find_Some_set[OF l] ord by auto
    moreover have "verify_policy L bundle policy trust_store image_digest =
                Inl (GateError ''unknown log operator'' ''ERR_POLICY_DENIED'' [(''logId'', l)])"
      using gc l by (simp add: verify_policy_def)
    ultimately show "\<exists>l\<in>set (log_ids c). \<not> recognized trust_store l \<and>
              verify_policy L bundle policy trust_store image_digest =
                Inl (GateError ''unknown log operator'' ''ERR_POLICY_DENIED'' [(''logId'', l)])"
      by blast
  qed
  show "\<forall>r. verify_policy L bundle policy trust_store image_digest = Inr r \<longrightarrow>
           (\<forall>l\<in>set (log_ids c). recognized trust_store l)"
  proof (intro allI impI)
    fix r assume r: "verify_policy L bundle policy trust_store image_digest = Inr r"
    have "?f = None"
    proof (cases ?f)
      case (Some l)
      then show ?thesis using gc r by (simp add: verify_policy_def)
    qed simp
    then show "\<forall>l\<in>set (log_ids c). recognized trust_store l"
      using ord by (simp add: find_None_set)
  qed
qed

text \<open>
  C6. The engine collects the set of distinct \<open>logId\<close> values of the log entries and, when
  their number is below \<open>policy.logQuorum\<close> (1 when the policy has no such field), denies
  with \<^verbatim>\<open>ERR_POLICY_DENIED\<close> and details \<open>{required, observed}\<close>. The check is the first
  one after the inputs are read (the policy lists, the Bundle Validator, the key index,
  the \<open>logId\<close> of every entry), and its outcome does not depend on the attestations, the
  decoder or the verifier: the statement holds for every library \<open>L\<close>.
\<close>

theorem log_quorum_denial:
  "\<lbrakk>gate_inputs bundle policy trust_store = Inr c; log_quorum c = JInt q;
    int (length (log_ids c)) < q\<rbrakk> \<Longrightarrow>
   verify_policy L bundle policy trust_store image_digest =
     Inl (GateError ''log quorum not satisfied'' ''ERR_POLICY_DENIED''
           [(''required'', JInt q), (''observed'', JInt (int (length (log_ids c))))])
   \<and> py_get policy ''logQuorum'' (JInt 1) = Inr (JInt q)
   \<and> length (log_ids c) = card (py_key ` entry_log_id ` set (bundle_log_entries bundle))
   \<and> (\<forall>e\<in>set (bundle_log_entries bundle). py_index e ''logId'' = Inr (entry_log_id e))"
proof -
  assume gi: "gate_inputs bundle policy trust_store = Inr c"
    and q: "log_quorum c = JInt q" and lt: "int (length (log_ids c)) < q"
  have ids: "bundle_log_ids bundle = Inr (log_ids c)"
    using gi by (rule gate_inputs_Inr)
  have "length (log_ids c) = card (py_key ` set (map entry_log_id (bundle_log_entries bundle)))"
    using bundle_log_ids_Inr(1)[OF ids] length_add_all_empty by simp
  then have "length (log_ids c) = card (py_key ` entry_log_id ` set (bundle_log_entries bundle))"
    by simp
  moreover have "py_get policy ''logQuorum'' (JInt 1) = Inr (JInt q)"
    using gate_inputs_Inr(1)[OF gi] q by simp
  ultimately show ?thesis
    using verify_policy_quorum[OF gi q lt] bundle_log_ids_Inr(2)[OF ids] by simp
qed

theorem log_quorum_denial_witness:
  "gate_inputs bundle_ok (policy_with [''provenance''] [''k1''] 2) trust_store_ok
     = Inr (ctx_with 2 [JStr ''log-a''])
   \<and> verify_policy test_lib bundle_ok (policy_with [''provenance''] [''k1''] 2) trust_store_ok
       ''sha256:ab12''
     = Inl (GateError ''log quorum not satisfied'' ''ERR_POLICY_DENIED''
             [(''required'', JInt 2), (''observed'', JInt 1)])"
proof -
  have gi: "gate_inputs bundle_ok (policy_with [''provenance''] [''k1''] 2) trust_store_ok
     = Inr (ctx_with 2 [JStr ''log-a''])"
    by code_simp
  have q: "log_quorum (ctx_with 2 [JStr ''log-a'']) = JInt 2"
    by (simp add: ctx_with_def)
  have lt: "int (length (log_ids (ctx_with 2 [JStr ''log-a'']))) < 2"
    by (simp add: ctx_with_def)
  have "verify_policy test_lib bundle_ok (policy_with [''provenance''] [''k1''] 2) trust_store_ok
       ''sha256:ab12''
     = Inl (GateError ''log quorum not satisfied'' ''ERR_POLICY_DENIED''
             [(''required'', JInt 2),
              (''observed'', JInt (int (length (log_ids (ctx_with 2 [JStr ''log-a''])))))])"
    using log_quorum_denial[OF gi q lt] by (rule conjunct1)
  then show ?thesis
    using gi by (simp add: ctx_with_def)
qed

text \<open>
  C7. After the quorum check, every distinct \<open>logId\<close> of the bundle is looked up in the log
  operators of the trust store (a mapping): if one is not recognized, evaluation denies
  with \<^verbatim>\<open>ERR_POLICY_DENIED\<close> and details naming an unrecognized \<open>logId\<close>, the first
  in the order in which the set is visited; a Report is returned only if every distinct
  \<open>logId\<close> is recognized.
\<close>

theorem log_operator_check:
  assumes "gate_inputs bundle policy trust_store = Inr c"
    and "py_int_lt (int (length (log_ids c))) (log_quorum c) = Inr False"
    and "py_get trust_store ''logs'' (JObj []) = Inr (JObj logs)"
    and "set (set_order L (log_ids c)) = set (log_ids c)"
  shows "((\<exists>l\<in>set (log_ids c). \<not> recognized trust_store l) \<longrightarrow>
           (\<exists>l\<in>set (log_ids c). \<not> recognized trust_store l \<and>
              verify_policy L bundle policy trust_store image_digest =
                Inl (GateError ''unknown log operator'' ''ERR_POLICY_DENIED'' [(''logId'', l)])))
       \<and> (\<forall>r. verify_policy L bundle policy trust_store image_digest = Inr r \<longrightarrow>
             (\<forall>l\<in>set (log_ids c). recognized trust_store l))
       \<and> log_ids c = add_all (map entry_log_id (bundle_log_entries bundle)) []
       \<and> (\<forall>l. recognized trust_store l \<longleftrightarrow> (\<exists>k\<in>fst ` set logs. l = JStr k))"
proof -
  have ids: "bundle_log_ids bundle = Inr (log_ids c)"
    using assms(1) by (rule gate_inputs_Inr)
  show ?thesis
  proof (intro conjI)
    show "(\<exists>l\<in>set (log_ids c). \<not> recognized trust_store l) \<longrightarrow>
           (\<exists>l\<in>set (log_ids c). \<not> recognized trust_store l \<and>
              verify_policy L bundle policy trust_store image_digest =
                Inl (GateError ''unknown log operator'' ''ERR_POLICY_DENIED'' [(''logId'', l)]))"
      by (rule verify_policy_logs(1)[OF assms])
    show "\<forall>r. verify_policy L bundle policy trust_store image_digest = Inr r \<longrightarrow>
             (\<forall>l\<in>set (log_ids c). recognized trust_store l)"
      by (rule verify_policy_logs(2)[OF assms])
    show "log_ids c = add_all (map entry_log_id (bundle_log_entries bundle)) []"
      by (rule bundle_log_ids_Inr(1)[OF ids])
    show "\<forall>l. recognized trust_store l \<longleftrightarrow> (\<exists>k\<in>fst ` set logs. l = JStr k)"
      using recognized_obj[OF assms(3)] by simp
  qed
qed

theorem log_operator_check_witness:
  "verify_policy test_lib (bundle_with [attestation_ok] [log_a, log_b]) policy_ok trust_store_ok
     ''sha256:ab12''
   = Inl (GateError ''unknown log operator'' ''ERR_POLICY_DENIED'' [(''logId'', JStr ''log-b'')])"
proof -
  let ?c = "ctx_with 1 [JStr ''log-a'', JStr ''log-b'']"
  have gi: "gate_inputs (bundle_with [attestation_ok] [log_a, log_b]) policy_ok trust_store_ok
     = Inr ?c"
    by code_simp
  have q: "py_int_lt (int (length (log_ids ?c))) (log_quorum ?c) = Inr False"
    by code_simp
  have logs: "py_get trust_store_ok ''logs'' (JObj []) = Inr (JObj [(''log-a'', JObj [])])"
    by code_simp
  have ord: "set (set_order test_lib (log_ids ?c)) = set (log_ids ?c)"
    by (simp add: test_lib_def insertion_order_def)
  have a: "recognized trust_store_ok (JStr ''log-a'')" by code_simp
  have b: "\<not> recognized trust_store_ok (JStr ''log-b'')" by code_simp
  have ids: "set (log_ids ?c) = {JStr ''log-a'', JStr ''log-b''}"
    by (simp add: ctx_with_def)
  have ex: "\<exists>l\<in>set (log_ids ?c). \<not> recognized trust_store_ok l"
    using b ids by simp
  have "(\<exists>l\<in>set (log_ids ?c). \<not> recognized trust_store_ok l) \<longrightarrow>
      (\<exists>l\<in>set (log_ids ?c). \<not> recognized trust_store_ok l \<and>
         verify_policy test_lib (bundle_with [attestation_ok] [log_a, log_b]) policy_ok
           trust_store_ok ''sha256:ab12''
         = Inl (GateError ''unknown log operator'' ''ERR_POLICY_DENIED'' [(''logId'', l)]))"
    using log_operator_check[OF gi q logs ord] by (rule conjunct1)
  with ex obtain l where "l \<in> set (log_ids ?c)" "\<not> recognized trust_store_ok l"
    and v: "verify_policy test_lib (bundle_with [attestation_ok] [log_a, log_b]) policy_ok
       trust_store_ok ''sha256:ab12''
     = Inl (GateError ''unknown log operator'' ''ERR_POLICY_DENIED'' [(''logId'', l)])"
    by blast
  then have "l = JStr ''log-b''" using a ids by auto
  with v show ?thesis by simp
qed

section \<open>The loop over the attestations\<close>

lemma subject_loop_Inr:
  "subject_loop L d subjects missing = Inr m \<Longrightarrow> m = missing @ mismatches L d (map digest_of subjects)"
proof (induction subjects arbitrary: missing)
  case Nil
  then show ?case by (simp add: mismatches_def)
next
  case (Cons subject rest)
  from Cons.prems obtain dg digest where dg: "py_get subject ''digest'' (JObj []) = Inr dg"
    and digest: "py_get dg ''sha256'' JNull = Inr digest"
    and rest: "subject_loop L d rest
         (if py_truthy digest \<and> ''sha256:'' @ py_format L digest \<noteq> d
          then missing @ [digest] else missing) = Inr m"
    by (auto simp: bnd_eq_Inr)
  have "digest_of subject = digest" using dg digest by (simp add: digest_of_def)
  with Cons.IH[OF rest] show ?case by (simp add: mismatches_def)
qed

lemma read_statement_Inr:
  assumes "read_statement L d a st = Inr pm"
  shows "fst pm = add_all [predicate_of L a] (seen_predicates st)"
    and "snd pm = missing_subjects st @ mismatches L d (digests_of L a)"
    and "\<exists>statement. decode_statement L a = Inr statement
           \<and> py_get statement ''predicateType'' JNull = Inr (predicate_of L a)"
proof -
  from assms obtain statement pt preds sj subjects missing where
    st: "decode_statement L a = Inr statement"
    and pt: "py_get statement ''predicateType'' JNull = Inr pt"
    and preds: "py_set_add pt (seen_predicates st) = Inr preds"
    and sj: "py_get statement ''subject'' (JArr []) = Inr sj"
    and subjects: "py_iter sj = Inr subjects"
    and missing: "subject_loop L d subjects (missing_subjects st) = Inr missing"
    and pm: "pm = (preds, missing)"
    by (auto simp: read_statement_def bnd_eq_Inr)
  have p: "predicate_of L a = pt" using st pt by (simp add: predicate_of_def)
  have dgs: "digests_of L a = map digest_of subjects"
    using st sj subjects by (simp add: digests_of_def)
  show "fst pm = add_all [predicate_of L a] (seen_predicates st)"
    using preds pm p by (simp add: py_set_add_Inr)
  show "snd pm = missing_subjects st @ mismatches L d (digests_of L a)"
    using subject_loop_Inr[OF missing] pm dgs by simp
  show "\<exists>statement. decode_statement L a = Inr statement
           \<and> py_get statement ''predicateType'' JNull = Inr (predicate_of L a)"
    using st pt p by simp
qed

lemma usable_iff:
  "py_set_mem k allowed = Inr b \<Longrightarrow> (if b then py_dict_mem k ks else Inr False) = Inr u \<Longrightarrow>
     u = usable allowed ks k"
  by (auto simp: usable_def split: if_splits)

lemma signature_loop_Inr:
  "signature_loop L allowed ks a sgs seen = Inr (valid, seen') \<Longrightarrow>
     seen' = add_all (filter py_truthy (map keyid_of (scanned allowed ks sgs))) seen
     \<and> valid = list_ex (\<lambda>sg. usable allowed ks (keyid_of sg)) sgs
     \<and> (valid \<longrightarrow> (\<exists>pre sg. scanned allowed ks sgs = pre @ [sg]
            \<and> (\<forall>x\<in>set pre. \<not> usable allowed ks (keyid_of x))
            \<and> usable allowed ks (keyid_of sg)
            \<and> sg \<in> set sgs
            \<and> call_verify L ks a sg (keyid_of sg) = Inr ()))"
proof (induction sgs arbitrary: seen)
  case Nil
  then show ?case by simp
next
  case (Cons sg rest)
  from Cons.prems obtain k seen1 b u where k: "py_get sg ''keyid'' JNull = Inr k"
    and seen1: "(if py_truthy k then py_set_add k seen else Inr seen) = Inr seen1"
    and b: "py_set_mem k allowed = Inr b"
    and u: "(if b then py_dict_mem k ks else Inr False) = Inr u"
    and body: "(if u then bnd (call_verify L ks a sg k) (\<lambda>_. Inr (True, seen1))
                else signature_loop L allowed ks a rest seen1) = Inr (valid, seen')"
    by (auto simp: bnd_eq_Inr)
  have kid: "keyid_of sg = k" using k by (simp add: keyid_of_def)
  have uu: "u = usable allowed ks k" using usable_iff[OF b u] .
  have s1: "seen1 = add_all (filter py_truthy [k]) seen"
    using seen1 by (auto simp: py_set_add_Inr split: if_splits)
  show ?case
  proof (cases u)
    case True
    with body have cv: "call_verify L ks a sg k = Inr ()" and v: "valid" and s': "seen' = seen1"
      by (auto simp: bnd_eq_Inr)
    have sc: "scanned allowed ks (sg # rest) = [] @ [sg]" using True uu kid by simp
    show ?thesis
      using True uu kid cv v s' s1 sc by (auto simp del: scanned.simps) 
  next
    case False
    with body have rec: "signature_loop L allowed ks a rest seen1 = Inr (valid, seen')" by simp
    note ih = Cons.IH[OF rec]
    have sc: "scanned allowed ks (sg # rest) = sg # scanned allowed ks rest"
      using False uu kid by simp
    have 1: "seen' = add_all (filter py_truthy (map keyid_of (scanned allowed ks (sg # rest)))) seen"
      using ih s1 sc kid by (cases "py_truthy k") simp_all
    have 2: "valid = list_ex (\<lambda>sg. usable allowed ks (keyid_of sg)) (sg # rest)"
      using ih False uu kid by simp
    have 3: "valid \<longrightarrow> (\<exists>pre sg'. scanned allowed ks (sg # rest) = pre @ [sg']
            \<and> (\<forall>x\<in>set pre. \<not> usable allowed ks (keyid_of x))
            \<and> usable allowed ks (keyid_of sg')
            \<and> sg' \<in> set (sg # rest)
            \<and> call_verify L ks a sg' (keyid_of sg') = Inr ())"
    proof
      assume valid
      with ih obtain pre sg' where p: "scanned allowed ks rest = pre @ [sg']"
        "\<forall>x\<in>set pre. \<not> usable allowed ks (keyid_of x)" "usable allowed ks (keyid_of sg')"
        "sg' \<in> set rest" "call_verify L ks a sg' (keyid_of sg') = Inr ()"
        by blast
      have "scanned allowed ks (sg # rest) = (sg # pre) @ [sg']" using sc p(1) by simp
      moreover have "\<forall>x\<in>set (sg # pre). \<not> usable allowed ks (keyid_of x)"
        using p(2) False uu kid by simp
      ultimately show "\<exists>pre sg'. scanned allowed ks (sg # rest) = pre @ [sg']
            \<and> (\<forall>x\<in>set pre. \<not> usable allowed ks (keyid_of x))
            \<and> usable allowed ks (keyid_of sg')
            \<and> sg' \<in> set (sg # rest)
            \<and> call_verify L ks a sg' (keyid_of sg') = Inr ()"
        using p(3,4,5) by (metis list.set_intros(2))
    qed
    from 1 2 3 show ?thesis by blast
  qed
qed


lemma scan_attestation_Inr:
  assumes "scan_attestation L d allowed ks a st = Inr st'"
  shows "seen_predicates st' = add_all [predicate_of L a] (seen_predicates st)"
    and "missing_subjects st' = missing_subjects st @ mismatches L d (digests_of L a)"
    and "seen_signers st' =
           add_all (filter py_truthy (map keyid_of (scanned allowed ks (signatures_of a))))
             (seen_signers st)"
    and "\<exists>statement. decode_statement L a = Inr statement
           \<and> py_get statement ''predicateType'' JNull = Inr (predicate_of L a)"
    and "\<exists>pre sg. scanned allowed ks (signatures_of a) = pre @ [sg]
            \<and> (\<forall>x\<in>set pre. \<not> usable allowed ks (keyid_of x))
            \<and> usable allowed ks (keyid_of sg)
            \<and> sg \<in> set (signatures_of a)
            \<and> call_verify L ks a sg (keyid_of sg) = Inr ()"
proof -
  from assms obtain pm sgs r where pm: "read_statement L d a st = Inr pm"
    and sgs: "attestation_signatures a = Inr sgs"
    and r: "signature_loop L allowed ks a sgs (seen_signers st) = Inr r"
    and body: "(if \<not> fst r then
         bnd (py_sorted allowed) (\<lambda>al.
         bnd (py_sorted (snd r)) (\<lambda>s.
           Inl (GateError ''no valid signature for allowed signer'' ''ERR_POLICY_DENIED''
                 [(''allowed'', JArr al), (''seen'', JArr s)])))
       else
         Inr \<lparr>seen_predicates = fst pm, seen_signers = snd r, missing_subjects = snd pm\<rparr>)
       = Inr st'"
    by (auto simp: scan_attestation_def bnd_eq_Inr)
  have valid: "fst r"
  proof (rule ccontr)
    assume "\<not> fst r"
    with body show False by (auto simp: bnd_eq_Inr)
  qed
  with body have st': "st' = \<lparr>seen_predicates = fst pm, seen_signers = snd r, missing_subjects = snd pm\<rparr>"
    by simp
  have so: "signatures_of a = sgs" using sgs by (simp add: signatures_of_def)
  have r': "signature_loop L allowed ks a sgs (seen_signers st) = Inr (True, snd r)"
    using r valid by (cases r) simp
  note sl = signature_loop_Inr[OF r']
  show "seen_predicates st' = add_all [predicate_of L a] (seen_predicates st)"
    using read_statement_Inr(1)[OF pm] st' by simp
  show "missing_subjects st' = missing_subjects st @ mismatches L d (digests_of L a)"
    using read_statement_Inr(2)[OF pm] st' by simp
  show "seen_signers st' =
           add_all (filter py_truthy (map keyid_of (scanned allowed ks (signatures_of a))))
             (seen_signers st)"
    using sl st' so by simp
  show "\<exists>statement. decode_statement L a = Inr statement
           \<and> py_get statement ''predicateType'' JNull = Inr (predicate_of L a)"
    by (rule read_statement_Inr(3)[OF pm])
  show "\<exists>pre sg. scanned allowed ks (signatures_of a) = pre @ [sg]
            \<and> (\<forall>x\<in>set pre. \<not> usable allowed ks (keyid_of x))
            \<and> usable allowed ks (keyid_of sg)
            \<and> sg \<in> set (signatures_of a)
            \<and> call_verify L ks a sg (keyid_of sg) = Inr ()"
    using sl so by simp
qed

lemma scan_attestation_validated:
  assumes "scan_attestation L d allowed ks a st = Inr st'"
  shows "signer_validated L allowed ks a"
  using scan_attestation_Inr(5)[OF assms] by (auto simp: signer_validated_def list_ex_iff)

lemma attestation_loop_append:
  "attestation_loop L d allowed ks (xs @ ys) st =
     bnd (attestation_loop L d allowed ks xs st) (attestation_loop L d allowed ks ys)"
proof (induction xs arbitrary: st)
  case Nil
  show ?case by simp
next
  case (Cons x xs)
  show ?case
    by (cases "scan_attestation L d allowed ks x st") (simp_all add: Cons.IH)
qed

lemma observed_keyids_Cons:
  "observed_keyids allowed ks (a # atts) =
     filter py_truthy (map keyid_of (scanned allowed ks (signatures_of a)))
     @ observed_keyids allowed ks atts"
  by (simp add: observed_keyids_def)

lemma attestation_loop_Inr:
  "attestation_loop L d allowed ks atts st = Inr st' \<Longrightarrow>
     seen_predicates st' = add_all (map (predicate_of L) atts) (seen_predicates st)
     \<and> seen_signers st' = add_all (observed_keyids allowed ks atts) (seen_signers st)
     \<and> missing_subjects st' =
         missing_subjects st @ concat (map (\<lambda>a. mismatches L d (digests_of L a)) atts)
     \<and> (\<forall>a\<in>set atts. signer_validated L allowed ks a)
     \<and> (\<forall>a\<in>set atts. \<exists>statement. decode_statement L a = Inr statement
           \<and> py_get statement ''predicateType'' JNull = Inr (predicate_of L a))"
proof (induction atts arbitrary: st)
  case Nil
  then show ?case by (simp add: observed_keyids_def)
next
  case (Cons a atts)
  from Cons.prems obtain st1 where a: "scan_attestation L d allowed ks a st = Inr st1"
    and rest: "attestation_loop L d allowed ks atts st1 = Inr st'"
    by (auto simp: bnd_eq_Inr)
  note ih = Cons.IH[OF rest]
  note sa = scan_attestation_Inr[OF a]
  have 1: "seen_predicates st' = add_all (map (predicate_of L) (a # atts)) (seen_predicates st)"
    using ih sa(1) by simp
  have 2: "seen_signers st' = add_all (observed_keyids allowed ks (a # atts)) (seen_signers st)"
    using ih sa(3) by (simp add: observed_keyids_Cons add_all_append)
  have 3: "missing_subjects st' =
         missing_subjects st @ concat (map (\<lambda>a. mismatches L d (digests_of L a)) (a # atts))"
    using ih sa(2) by simp
  have 4: "\<forall>x\<in>set (a # atts). signer_validated L allowed ks x"
    using ih scan_attestation_validated[OF a] by simp
  have 5: "\<forall>x\<in>set (a # atts). \<exists>statement. decode_statement L x = Inr statement
           \<and> py_get statement ''predicateType'' JNull = Inr (predicate_of L x)"
    using ih sa(4) by simp
  from 1 2 3 4 5 show ?case by blast
qed

lemma verify_policy_reached:
  assumes "gate_checks L bundle policy trust_store = Inr c"
    and "bundle_attestations bundle = Inr atts"
  shows "verify_policy L bundle policy trust_store d =
     bnd (attestation_loop L d (allowed_signers c) (keys c) atts init_acc) (conclude d c)"
  using assms by (simp add: verify_policy_def)

lemma set_py_set_diff: "set (py_set_diff a b) = {x \<in> set a. py_key x \<notin> py_key ` set b}"
  by (auto simp: py_set_diff_def list_ex_py_eq)

lemma map_JStr_str_of: "list_all is_str s \<Longrightarrow> map (JStr \<circ> str_of) s = s"
  by (induction s) (auto simp: is_str_def str_of_def split: json.splits)

lemma py_sorted_Inr:
  assumes "py_sorted s = Inr m"
  shows "set m = set s" and "length m = length s"
proof -
  consider (small) "length s \<le> 1" | (strs) "\<not> length s \<le> 1" "list_all is_str s"
    | (nums) "\<not> length s \<le> 1" "\<not> list_all is_str s"
    by blast
  then have "set m = set s \<and> length m = length s"
  proof cases
    case small
    with assms show ?thesis by (simp add: py_sorted_def)
  next
    case strs
    then have m: "m = map JStr (sort (map str_of s))"
      using assms by (simp add: py_sorted_def)
    have "set m = (JStr \<circ> str_of) ` set s" using m by (simp add: image_comp)
    also have "\<dots> = set (map (JStr \<circ> str_of) s)" by simp
    also have "\<dots> = set s" using map_JStr_str_of[OF strs(2)] by simp
    finally show ?thesis using m by simp
  next
    case nums
    with assms have "m = sort_key int_of s"
      by (auto simp: py_sorted_def split: if_splits)
    then show ?thesis by simp
  qed
  then show "set m = set s" and "length m = length s" by simp_all
qed

lemma py_sorted_strings:
  assumes "list_all is_str s" and "distinct s"
  shows "py_sorted s = Inr (map JStr (sorted_list_of_set (str_of ` set s)))"
proof -
  have inj: "inj_on str_of (set s)"
    using assms(1) by (auto simp: inj_on_def list_all_iff is_str_def str_of_def split: json.splits)
  have d: "distinct (map str_of s)" using assms(2) inj by (simp add: distinct_map)
  have "sort (map str_of s) = sorted_list_of_set (set (map str_of s))"
    using d by (simp only: sorted_list_of_set_sort_remdups distinct_remdups_id)
  then have srt: "map JStr (sort (map str_of s)) = map JStr (sorted_list_of_set (str_of ` set s))"
    by simp
  show ?thesis
  proof (cases "length s \<le> 1")
    case True
    then consider "s = []" | x where "s = [x]"
      by (cases s) (auto simp: Suc_le_eq)
    then show ?thesis
    proof cases
      case 1
      then show ?thesis by (simp add: py_sorted_def)
    next
      case 2
      with assms(1) obtain t where "x = JStr t" by (cases x) (auto simp: is_str_def)
      with 2 show ?thesis by (simp add: py_sorted_def str_of_def)
    qed
  next
    case False
    with assms(1) srt show ?thesis by (simp add: py_sorted_def)
  qed
qed

section \<open>Which exceptions the engine raises\<close>

lemma uncaught_PyError [simp]: "uncaught (PyError x)"
  by (simp add: uncaught_def)

lemma uncaught_GateError [simp]: "\<not> uncaught (GateError m i dt)"
  by (simp add: uncaught_def)

lemma py_get_uncaught: "py_get v k dflt = Inl e \<Longrightarrow> uncaught e"
  by (auto simp: py_get_def split: json.splits)

lemma py_index_uncaught: "py_index v k = Inl e \<Longrightarrow> uncaught e"
  by (auto simp: py_index_def split: json.splits option.splits)

lemma py_iter_uncaught: "py_iter v = Inl e \<Longrightarrow> uncaught e"
  by (auto simp: py_iter_def split: json.splits)

lemma py_set_add_uncaught: "py_set_add v s = Inl e \<Longrightarrow> uncaught e"
  by (auto simp: py_set_add_def split: if_splits)

lemma py_set_mem_uncaught: "py_set_mem v s = Inl e \<Longrightarrow> uncaught e"
  by (auto simp: py_set_mem_def split: if_splits)

lemma py_dict_mem_uncaught: "py_dict_mem v s = Inl e \<Longrightarrow> uncaught e"
  by (auto simp: py_dict_mem_def split: if_splits)

lemma py_dict_index_uncaught: "py_dict_index d k = Inl e \<Longrightarrow> uncaught e"
  by (auto simp: py_dict_index_def split: if_splits option.splits)

lemma py_b64decode_uncaught: "py_b64decode L v = Inl e \<Longrightarrow> uncaught e"
  by (auto simp: py_b64decode_def split: json.splits option.splits)

lemma py_sorted_uncaught: "py_sorted s = Inl e \<Longrightarrow> uncaught e"
  by (auto simp: py_sorted_def split: if_splits)

lemma verify_signature_uncaught: "verify_signature L pk pl sg = Inl e \<Longrightarrow> uncaught e"
  by (auto simp: verify_signature_def Let_def bnd_eq_Inl split: json.splits if_splits
      dest: py_b64decode_uncaught)

lemma call_verify_uncaught: "call_verify L ks a sg k = Inl e \<Longrightarrow> uncaught e"
  by (auto simp: call_verify_def bnd_eq_Inl
      dest: py_dict_index_uncaught py_index_uncaught verify_signature_uncaught)

lemma decode_statement_uncaught: "decode_statement L a = Inl e \<Longrightarrow> uncaught e"
  by (auto simp: decode_statement_def bnd_eq_Inl split: option.splits
      dest: py_index_uncaught py_b64decode_uncaught)

lemma subject_loop_uncaught: "subject_loop L d subjects missing = Inl e \<Longrightarrow> uncaught e"
  by (induction subjects arbitrary: missing) (auto simp: bnd_eq_Inl dest: py_get_uncaught)

lemma read_statement_uncaught: "read_statement L d a st = Inl e \<Longrightarrow> uncaught e"
  by (auto simp: read_statement_def bnd_eq_Inl
      dest: decode_statement_uncaught py_get_uncaught py_set_add_uncaught py_iter_uncaught
        subject_loop_uncaught)

lemma attestation_signatures_uncaught: "attestation_signatures a = Inl e \<Longrightarrow> uncaught e"
  by (auto simp: attestation_signatures_def bnd_eq_Inl dest: py_get_uncaught py_iter_uncaught)

lemma signature_loop_uncaught: "signature_loop L allowed ks a sgs seen = Inl e \<Longrightarrow> uncaught e"
proof (induction sgs arbitrary: seen)
  case Nil
  then show ?case by simp
next
  case (Cons sg rest)
  then show ?case
    by (auto simp: bnd_eq_Inl split: if_splits
        dest: py_get_uncaught py_set_add_uncaught py_set_mem_uncaught py_dict_mem_uncaught
          call_verify_uncaught)
qed

lemma scan_attestation_Inl:
  "scan_attestation L d allowed ks a st = Inl e \<Longrightarrow> uncaught e \<or> no_signer_denial e"
  by (auto simp: scan_attestation_def bnd_eq_Inl no_signer_denial_def split: if_splits
      dest: read_statement_uncaught attestation_signatures_uncaught signature_loop_uncaught
        py_sorted_uncaught)

lemma attestation_loop_Inl:
  "attestation_loop L d allowed ks atts st = Inl e \<Longrightarrow> uncaught e \<or> no_signer_denial e"
  by (induction atts arbitrary: st) (auto simp: bnd_eq_Inl dest: scan_attestation_Inl)

section \<open>Coverage, subject binding and the Report\<close>

lemma gate_checks_Inr:
  "gate_checks L bundle policy trust_store = Inr c \<Longrightarrow> gate_inputs bundle policy trust_store = Inr c"
  by (auto simp: gate_checks_def bnd_eq_Inr split: if_splits)

lemma py_set_Inr:
  "py_set v = Inr s \<Longrightarrow> \<exists>vs. py_iter v = Inr vs \<and> s = add_all vs []"
  by (auto simp: py_set_def bnd_eq_Inr py_set_from_Inr)

lemma gate_inputs_distinct:
  assumes "gate_inputs bundle policy trust_store = Inr c"
  shows "distinct (map py_key (required_predicates c))"
proof -
  from gate_inputs_sets(1)[OF assms] obtain rp where "py_set rp = Inr (required_predicates c)"
    by blast
  then obtain vs where "required_predicates c = add_all vs []"
    using py_set_Inr by blast
  then show ?thesis using distinct_add_all[of "[]" vs] by simp
qed

lemma py_key_str: "is_str x \<Longrightarrow> py_key x = x"
  by (cases x) (simp_all add: is_str_def py_key_def)

lemma py_key_eq_str: "is_str x \<Longrightarrow> py_key y = x \<longleftrightarrow> y = x"
  by (cases x; cases y) (auto simp: is_str_def py_key_def)

lemma py_key_mem_str:
  assumes "is_str x"
  shows "py_key x \<in> py_key ` A \<longleftrightarrow> x \<in> A"
proof
  assume "py_key x \<in> py_key ` A"
  then obtain y where y: "y \<in> A" "py_key x = py_key y" by auto
  note s = assms
  then have "py_key y = x" using y(2) py_key_str by simp
  then have "y = x" using py_key_eq_str[OF s] by simp
  with y show "x \<in> A" by simp
qed auto

lemma map_py_key_strs: "list_all is_str s \<Longrightarrow> map py_key s = s"
  by (induction s) (simp_all add: py_key_str)

lemma strs_image_eq:
  assumes "list_all is_str vs" "py_key ` set s = py_key ` set vs"
  shows "set s = set vs"
proof -
  have "map py_key vs = vs" using assms(1) by (rule map_py_key_strs)
  then have vs: "py_key ` set vs = set vs" by (metis set_map)
  have "\<And>y. y \<in> set s \<Longrightarrow> is_str y"
  proof -
    fix y assume "y \<in> set s"
    then have "py_key y \<in> set vs" using assms(2) vs by blast
    then have "is_str (py_key y)" using assms(1) by (simp add: list_all_iff)
    then show "is_str y" by (cases y) (simp_all add: is_str_def py_key_def)
  qed
  then have "list_all is_str s" by (simp add: list_all_iff)
  then have "map py_key s = s" by (rule map_py_key_strs)
  then have "py_key ` set s = set s" by (metis set_map)
  with vs assms(2) show ?thesis by simp
qed

lemma add_all_strs:
  assumes "list_all is_str vs"
  shows "set (add_all vs []) = set vs" and "distinct (add_all vs [])"
    and "list_all is_str (add_all vs [])"
proof -
  show s: "set (add_all vs []) = set vs"
    using strs_image_eq[OF assms, of "add_all vs []"] keys_add_all[of vs "[]"] by simp
  then show l: "list_all is_str (add_all vs [])"
    using assms by (simp add: list_all_iff)
  have "distinct (map py_key (add_all vs []))" by (rule distinct_add_all) simp
  then show "distinct (add_all vs [])" using map_py_key_strs[OF l] by simp
qed

lemma conclude_missing:
  assumes "missing_subjects st = []" 
    and "py_set_diff (required_predicates c) (seen_predicates st) \<noteq> []"
    and "py_sorted (py_set_diff (required_predicates c) (seen_predicates st)) = Inr m"
  shows "conclude d c st = Inl (GateError ''missing required predicates'' ''ERR_POLICY_DENIED''
                   [(''missing'', JArr m)])"
  using assms by (simp add: conclude_def Let_def)

lemma conclude_Inr:
  assumes "conclude d c st = Inr r"
  shows "missing_subjects st = []" and "py_set_diff (required_predicates c) (seen_predicates st) = []"
    and "py_sorted (seen_predicates st) = Inr (predicates r)"
    and "py_sorted (seen_signers st) = Inr (signers r)"
    and "py_sorted (log_ids c) = Inr (logIds r)"
  using assms by (auto simp: conclude_def Let_def bnd_eq_Inr split: if_splits)

lemma init_acc_simps [simp]:
  "seen_predicates init_acc = []" "seen_signers init_acc = []" "missing_subjects init_acc = []"
  by (simp_all add: init_acc_def)

text \<open>
  C4. A Report is returned only if every required predicate type is the predicate type of
  an attestation of the bundle that is signer-validated (in a run that returns a Report
  every attestation is). When evaluation reaches the coverage check, that is when every
  attestation has been scanned and no subject digest mismatches, and a required predicate
  type (a string) is not among the observed ones, evaluation denies with
  \<^verbatim>\<open>ERR_POLICY_DENIED\<close> and \<open>missing\<close> the sorted list of the set difference of the
  required and the observed predicate types.
\<close>

theorem required_predicates_covered:
  assumes gc: "gate_checks L bundle policy trust_store = Inr c"
    and ba: "bundle_attestations bundle = Inr atts"
  shows "(\<forall>r. verify_policy L bundle policy trust_store d = Inr r \<longrightarrow>
            (\<forall>p\<in>set (required_predicates c). \<exists>a\<in>set atts.
                py_eq p (predicate_of L a) \<and> signer_validated L (allowed_signers c) (keys c) a))
       \<and> (\<forall>st. attestation_loop L d (allowed_signers c) (keys c) atts init_acc = Inr st
              \<and> missing_subjects st = []
              \<and> list_all is_str (required_predicates c)
              \<and> (\<exists>p\<in>set (required_predicates c). p \<notin> predicate_of L ` set atts) \<longrightarrow>
            verify_policy L bundle policy trust_store d =
              Inl (GateError ''missing required predicates'' ''ERR_POLICY_DENIED''
                [(''missing'', JArr (map JStr (sorted_list_of_set
                    (str_of ` (set (required_predicates c) - predicate_of L ` set atts)))))]))
       \<and> (\<exists>rp. py_index policy ''requiredPredicates'' = Inr rp
              \<and> py_set rp = Inr (required_predicates c))"
proof (intro conjI allI impI)
  show "\<exists>rp. py_index policy ''requiredPredicates'' = Inr rp
              \<and> py_set rp = Inr (required_predicates c)"
    using gate_inputs_sets(1)[OF gate_checks_Inr[OF gc]] .
next
  fix r assume r: "verify_policy L bundle policy trust_store d = Inr r"
  then obtain st where lp: "attestation_loop L d (allowed_signers c) (keys c) atts init_acc = Inr st"
    and cl: "conclude d c st = Inr r"
    using gc ba by (auto simp: verify_policy_def bnd_eq_Inr)
  note al = attestation_loop_Inr[OF lp]
  have seen: "py_key ` set (seen_predicates st) = py_key ` predicate_of L ` set atts"
    using al keys_add_all[of "map (predicate_of L) atts" "[]"] by simp
  have "set (py_set_diff (required_predicates c) (seen_predicates st)) = {}"
    using conclude_Inr(2)[OF cl] by simp
  then have cov: "\<forall>p\<in>set (required_predicates c). py_key p \<in> py_key ` predicate_of L ` set atts"
    using seen by (auto simp: set_py_set_diff)
  show "\<forall>p\<in>set (required_predicates c). \<exists>a\<in>set atts.
                py_eq p (predicate_of L a) \<and> signer_validated L (allowed_signers c) (keys c) a"
  proof
    fix p assume "p \<in> set (required_predicates c)"
    with cov obtain a where "a \<in> set atts" "py_key p = py_key (predicate_of L a)" by auto
    then show "\<exists>a\<in>set atts.
                py_eq p (predicate_of L a) \<and> signer_validated L (allowed_signers c) (keys c) a"
      using al by (auto simp: py_eq_key)
  qed
next
  fix st
  assume h: "attestation_loop L d (allowed_signers c) (keys c) atts init_acc = Inr st
              \<and> missing_subjects st = []
              \<and> list_all is_str (required_predicates c)
              \<and> (\<exists>p\<in>set (required_predicates c). p \<notin> predicate_of L ` set atts)"
  then have lp: "attestation_loop L d (allowed_signers c) (keys c) atts init_acc = Inr st"
    and ms: "missing_subjects st = []" and strs: "list_all is_str (required_predicates c)"
    and ex: "\<exists>p\<in>set (required_predicates c). p \<notin> predicate_of L ` set atts"
    by simp_all
  let ?missing = "py_set_diff (required_predicates c) (seen_predicates st)"
  note al = attestation_loop_Inr[OF lp]
  have seen: "py_key ` set (seen_predicates st) = py_key ` predicate_of L ` set atts"
    using al keys_add_all[of "map (predicate_of L) atts" "[]"] by simp
  have "\<And>x. x \<in> set (required_predicates c) \<Longrightarrow>
      py_key x \<in> py_key ` predicate_of L ` set atts \<longleftrightarrow> x \<in> predicate_of L ` set atts"
    using strs py_key_mem_str by (simp add: list_all_iff)
  then have sm: "set ?missing = set (required_predicates c) - predicate_of L ` set atts"
    using seen by (auto simp: set_py_set_diff)
  have ne: "?missing \<noteq> []" using ex sm by auto
  have mstr: "list_all is_str ?missing" using strs by (simp add: py_set_diff_def list_all_iff)
  have "distinct (required_predicates c)"
    using gate_inputs_distinct[OF gate_checks_Inr[OF gc]] map_py_key_strs[OF strs] by simp
  then have md: "distinct ?missing" by (simp add: py_set_diff_def)
  have "py_sorted ?missing = Inr (map JStr (sorted_list_of_set (str_of ` set ?missing)))"
    using py_sorted_strings[OF mstr md] .
  from conclude_missing[OF ms ne this] sm
  show "verify_policy L bundle policy trust_store d =
              Inl (GateError ''missing required predicates'' ''ERR_POLICY_DENIED''
                [(''missing'', JArr (map JStr (sorted_list_of_set
                    (str_of ` (set (required_predicates c) - predicate_of L ` set atts)))))])"
    using verify_policy_reached[OF gc ba] lp by simp
qed


theorem required_predicates_covered_witness:
  "verify_policy test_lib bundle_ok (policy_with [''provenance'', ''sbom''] [''k1''] 1)
     trust_store_ok ''sha256:ab12''
   = Inl (GateError ''missing required predicates'' ''ERR_POLICY_DENIED''
           [(''missing'', JArr [JStr ''sbom''])])"
proof -
  let ?c = "\<lparr>required_predicates = [JStr ''provenance'', JStr ''sbom''],
      allowed_signers = [JStr ''k1''], log_quorum = JInt 1, keys = keys_ok,
      log_ids = [JStr ''log-a'']\<rparr>"
  let ?st = "\<lparr>seen_predicates = [JStr ''provenance''], seen_signers = [JStr ''k1''],
      missing_subjects = []\<rparr>"
  have gc: "gate_checks test_lib bundle_ok (policy_with [''provenance'', ''sbom''] [''k1''] 1)
      trust_store_ok = Inr ?c"
    by code_simp
  have ba: "bundle_attestations bundle_ok = Inr [attestation_ok]"
    by code_simp
  have lp: "attestation_loop test_lib ''sha256:ab12'' (allowed_signers ?c) (keys ?c)
      [attestation_ok] init_acc = Inr ?st"
    by code_simp
  have p: "predicate_of test_lib attestation_ok = JStr ''provenance''"
    by code_simp
  have h: "attestation_loop test_lib ''sha256:ab12'' (allowed_signers ?c) (keys ?c)
      [attestation_ok] init_acc = Inr ?st
      \<and> missing_subjects ?st = []
      \<and> list_all is_str (required_predicates ?c)
      \<and> (\<exists>p\<in>set (required_predicates ?c). p \<notin> predicate_of test_lib ` set [attestation_ok])"
    using lp p by (simp add: is_str_def)
  have diff: "str_of ` (set (required_predicates ?c) - predicate_of test_lib ` set [attestation_ok])
      = {''sbom''}"
    using p by (auto simp: str_of_def)
  from required_predicates_covered[OF gc ba, of "''sha256:ab12''"] h
  have "verify_policy test_lib bundle_ok (policy_with [''provenance'', ''sbom''] [''k1''] 1)
      trust_store_ok ''sha256:ab12'' =
      Inl (GateError ''missing required predicates'' ''ERR_POLICY_DENIED''
        [(''missing'', JArr (map JStr (sorted_list_of_set
           (str_of ` (set (required_predicates ?c) - predicate_of test_lib ` set [attestation_ok])))))])"
    by blast
  then show ?thesis by (simp only: diff) simp
qed

text \<open>
  C5. When all attestations pass signer validation, the mismatch list is the list, in
  bundle order, of the subject digests that are present (non-empty) and whose
  \<^verbatim>\<open>sha256:<digest>\<close> form differs from the image digest; if it is not empty,
  evaluation denies with \<^verbatim>\<open>ERR_POLICY_DENIED\<close> and details \<open>{expected, observed}\<close>.
  This denial is only ever raised after every attestation has been signer-validated.
\<close>

theorem subject_digest_mismatch:
  assumes gc: "gate_checks L bundle policy trust_store = Inr c"
    and ba: "bundle_attestations bundle = Inr atts"
  shows "(\<forall>st. attestation_loop L d (allowed_signers c) (keys c) atts init_acc = Inr st \<longrightarrow>
            missing_subjects st = concat (map (\<lambda>a. mismatches L d (digests_of L a)) atts)
            \<and> (missing_subjects st \<noteq> [] \<longrightarrow>
                 verify_policy L bundle policy trust_store d =
                   Inl (GateError ''subject digest mismatch'' ''ERR_POLICY_DENIED''
                         [(''expected'', JStr d), (''observed'', JArr (missing_subjects st))])))
       \<and> (\<forall>i dt. verify_policy L bundle policy trust_store d =
                   Inl (GateError ''subject digest mismatch'' i dt) \<longrightarrow>
            (\<forall>a\<in>set atts. signer_validated L (allowed_signers c) (keys c) a))"
proof (intro conjI allI impI)
  fix st assume lp: "attestation_loop L d (allowed_signers c) (keys c) atts init_acc = Inr st"
  show "missing_subjects st = concat (map (\<lambda>a. mismatches L d (digests_of L a)) atts)"
    using attestation_loop_Inr[OF lp] by simp
  assume "missing_subjects st \<noteq> []"
  then show "verify_policy L bundle policy trust_store d =
                   Inl (GateError ''subject digest mismatch'' ''ERR_POLICY_DENIED''
                         [(''expected'', JStr d), (''observed'', JArr (missing_subjects st))])"
    using verify_policy_reached[OF gc ba] lp by (simp add: conclude_def)
next
  fix i dt
  assume v: "verify_policy L bundle policy trust_store d =
                   Inl (GateError ''subject digest mismatch'' i dt)"
  show "\<forall>a\<in>set atts. signer_validated L (allowed_signers c) (keys c) a"
  proof (cases "attestation_loop L d (allowed_signers c) (keys c) atts init_acc")
    case (Inl e)
    then have "e = GateError ''subject digest mismatch'' i dt"
      using v verify_policy_reached[OF gc ba] by simp
    with attestation_loop_Inl[OF Inl] show ?thesis
      by (simp add: no_signer_denial_def)
  next
    case (Inr st)
    then show ?thesis using attestation_loop_Inr by blast
  qed
qed

theorem subject_digest_mismatch_witness:
  "verify_policy test_lib bundle_ok policy_ok trust_store_ok ''sha256:ab13''
   = Inl (GateError ''subject digest mismatch'' ''ERR_POLICY_DENIED''
           [(''expected'', JStr ''sha256:ab13''), (''observed'', JArr [JStr ''ab12''])])"
proof -
  let ?st = "\<lparr>seen_predicates = [JStr ''provenance''], seen_signers = [JStr ''k1''],
      missing_subjects = [JStr ''ab12'']\<rparr>"
  have gc: "gate_checks test_lib bundle_ok policy_ok trust_store_ok = Inr (ctx_with 1 [JStr ''log-a''])"
    by code_simp
  have ba: "bundle_attestations bundle_ok = Inr [attestation_ok]"
    by code_simp
  have lp: "attestation_loop test_lib ''sha256:ab13'' (allowed_signers (ctx_with 1 [JStr ''log-a'']))
      (keys (ctx_with 1 [JStr ''log-a''])) [attestation_ok] init_acc = Inr ?st"
    by code_simp
  from subject_digest_mismatch[OF gc ba, of "''sha256:ab13''"] lp
  have "missing_subjects ?st \<noteq> [] \<longrightarrow>
      verify_policy test_lib bundle_ok policy_ok trust_store_ok ''sha256:ab13'' =
        Inl (GateError ''subject digest mismatch'' ''ERR_POLICY_DENIED''
              [(''expected'', JStr ''sha256:ab13''), (''observed'', JArr (missing_subjects ?st))])"
    by blast
  then show ?thesis by simp
qed

lemma attestation_loop_scanned:
  "attestation_loop L d allowed ks atts st = Inr st' \<Longrightarrow>
     \<forall>a\<in>set atts. \<exists>pre sg. scanned allowed ks (signatures_of a) = pre @ [sg]
            \<and> (\<forall>x\<in>set pre. \<not> usable allowed ks (keyid_of x))
            \<and> usable allowed ks (keyid_of sg)
            \<and> call_verify L ks a sg (keyid_of sg) = Inr ()"
proof (induction atts arbitrary: st)
  case Nil
  then show ?case by simp
next
  case (Cons a atts)
  from Cons.prems obtain st1 where a: "scan_attestation L d allowed ks a st = Inr st1"
    and rest: "attestation_loop L d allowed ks atts st1 = Inr st'"
    by (auto simp: bnd_eq_Inr)
  from scan_attestation_Inr(5)[OF a] Cons.IH[OF rest] show ?case
    by simp blast
qed

text \<open>
  C10. In a Report, \<open>signers\<close> is the sorted set of the non-empty key identifiers met while
  scanning the signatures of each attestation in order up to and including the first
  signature with a usable key, which is the one that validated. Key identifiers outside
  the allowed signers met before it are included; signatures after it are not scanned.
\<close>

theorem report_signers:
  assumes v: "verify_policy L bundle policy trust_store d = Inr r"
    and gc: "gate_checks L bundle policy trust_store = Inr c"
    and ba: "bundle_attestations bundle = Inr atts"
  shows "py_sorted (add_all (observed_keyids (allowed_signers c) (keys c) atts) []) = Inr (signers r)
     \<and> py_key ` set (signers r) = py_key ` set (observed_keyids (allowed_signers c) (keys c) atts)
     \<and> (list_all is_str (observed_keyids (allowed_signers c) (keys c) atts) \<longrightarrow>
          signers r = map JStr (sorted_list_of_set
             (str_of ` set (observed_keyids (allowed_signers c) (keys c) atts))))
     \<and> (\<forall>a\<in>set atts. \<exists>pre sg.
            scanned (allowed_signers c) (keys c) (signatures_of a) = pre @ [sg]
            \<and> (\<forall>x\<in>set pre. \<not> usable (allowed_signers c) (keys c) (keyid_of x))
            \<and> usable (allowed_signers c) (keys c) (keyid_of sg)
            \<and> call_verify L (keys c) a sg (keyid_of sg) = Inr ())"
proof -
  let ?obs = "observed_keyids (allowed_signers c) (keys c) atts"
  from v obtain st where lp: "attestation_loop L d (allowed_signers c) (keys c) atts init_acc = Inr st"
    and cl: "conclude d c st = Inr r"
    using gc ba by (auto simp: verify_policy_def bnd_eq_Inr)
  have ss: "seen_signers st = add_all ?obs []"
    using attestation_loop_Inr[OF lp] by simp
  have 1: "py_sorted (add_all ?obs []) = Inr (signers r)"
    using conclude_Inr(4)[OF cl] ss by simp
  have 2: "py_key ` set (signers r) = py_key ` set ?obs"
    using py_sorted_Inr(1)[OF 1] keys_add_all[of ?obs "[]"] by simp
  have 3: "list_all is_str ?obs \<longrightarrow>
          signers r = map JStr (sorted_list_of_set (str_of ` set ?obs))"
  proof
    assume s: "list_all is_str ?obs"
    from py_sorted_strings[OF add_all_strs(3)[OF s] add_all_strs(2)[OF s]] 1 add_all_strs(1)[OF s]
    show "signers r = map JStr (sorted_list_of_set (str_of ` set ?obs))" by simp
  qed
  from 1 2 3 attestation_loop_scanned[OF lp] show ?thesis by blast
qed

theorem report_signers_witness:
  "verify_policy test_lib (bundle_with [attestation_three] [log_a]) policy_ok trust_store_ok
     ''sha256:ab12''
   = Inr \<lparr>predicates = [JStr ''provenance''], signers = [JStr ''k1'', JStr ''k9''],
          logIds = [JStr ''log-a'']\<rparr>
   \<and> observed_keyids [JStr ''k1''] keys_ok [attestation_three] = [JStr ''k9'', JStr ''k1'']
   \<and> py_sorted (add_all (observed_keyids [JStr ''k1''] keys_ok [attestation_three]) [])
     = Inr [JStr ''k1'', JStr ''k9'']"
proof -
  let ?r = "\<lparr>predicates = [JStr ''provenance''], signers = [JStr ''k1'', JStr ''k9''],
          logIds = [JStr ''log-a'']\<rparr>"
  have v: "verify_policy test_lib (bundle_with [attestation_three] [log_a]) policy_ok
      trust_store_ok ''sha256:ab12'' = Inr ?r"
    by code_simp
  have gc: "gate_checks test_lib (bundle_with [attestation_three] [log_a]) policy_ok
      trust_store_ok = Inr (ctx_with 1 [JStr ''log-a''])"
    by code_simp
  have ba: "bundle_attestations (bundle_with [attestation_three] [log_a]) = Inr [attestation_three]"
    by code_simp
  have obs: "observed_keyids [JStr ''k1''] keys_ok [attestation_three] = [JStr ''k9'', JStr ''k1'']"
    by code_simp
  have "py_sorted (add_all (observed_keyids (allowed_signers (ctx_with 1 [JStr ''log-a'']))
      (keys (ctx_with 1 [JStr ''log-a''])) [attestation_three]) []) = Inr (signers ?r)"
    using report_signers[OF v gc ba] by (rule conjunct1)
  then show ?thesis using v obs by (simp add: ctx_with_def)
qed


section \<open>The scan of the signatures\<close>

lemma well_keyed_D:
  assumes "well_keyed s"
  shows "py_get s ''keyid'' JNull = Inr (keyid_of s)" and "hashable (keyid_of s)"
  using assms by (auto simp: well_keyed_def keyid_of_def split: sum.splits)

lemma signature_step:
  assumes wk: "well_keyed s"
  shows "signature_loop L allowed ks a (s # rest) seen =
     (if usable allowed ks (keyid_of s) then
        bnd (call_verify L ks a s (keyid_of s))
          (\<lambda>_. Inr (True, add_all (filter py_truthy [keyid_of s]) seen))
      else signature_loop L allowed ks a rest (add_all (filter py_truthy [keyid_of s]) seen))"
proof -
  note k = well_keyed_D[OF wk]
  have add: "(if py_truthy (keyid_of s) then py_set_add (keyid_of s) seen else Inr seen)
      = Inr (add_all (filter py_truthy [keyid_of s]) seen)"
    using k(2) by (simp add: py_set_add_def)
  have mem: "py_set_mem (keyid_of s) allowed = Inr (list_ex (py_eq (keyid_of s)) allowed)"
    using k(2) by (simp add: py_set_mem_def)
  have dm: "py_dict_mem (keyid_of s) ks = Inr (list_ex (\<lambda>kv. py_eq (keyid_of s) (fst kv)) ks)"
    using k(2) by (simp add: py_dict_mem_def)
  have us: "usable allowed ks (keyid_of s) \<longleftrightarrow>
      list_ex (py_eq (keyid_of s)) allowed \<and> list_ex (\<lambda>kv. py_eq (keyid_of s) (fst kv)) ks"
    using mem dm by (simp add: usable_def)
  show ?thesis
    by (simp add: k(1) add mem dm us del: add_all.simps)
qed

lemma signature_loop_none:
  assumes "\<forall>s\<in>set sgs. well_keyed s \<and> \<not> usable allowed ks (keyid_of s)"
  shows "signature_loop L allowed ks a sgs seen =
     Inr (False, add_all (filter py_truthy (map keyid_of sgs)) seen)"
  using assms
proof (induction sgs arbitrary: seen)
  case Nil
  then show ?case by simp
next
  case (Cons s rest)
  then have wk: "well_keyed s" and nu: "\<not> usable allowed ks (keyid_of s)" by simp_all
  have "signature_loop L allowed ks a (s # rest) seen =
      signature_loop L allowed ks a rest (add_all (filter py_truthy [keyid_of s]) seen)"
    using signature_step[OF wk] nu by simp
  also have "\<dots> = Inr (False, add_all (filter py_truthy (map keyid_of rest))
      (add_all (filter py_truthy [keyid_of s]) seen))"
    using Cons by simp
  also have "add_all (filter py_truthy (map keyid_of rest)) (add_all (filter py_truthy [keyid_of s]) seen)
      = add_all (filter py_truthy (map keyid_of (s # rest))) seen"
    using add_all_append[of "filter py_truthy [keyid_of s]" "filter py_truthy (map keyid_of rest)" seen]
    by simp
  finally show ?case .
qed

lemma signature_loop_first:
  assumes "\<forall>x\<in>set s1. well_keyed x \<and> \<not> usable allowed ks (keyid_of x)"
    and "well_keyed s" and "usable allowed ks (keyid_of s)"
  shows "signature_loop L allowed ks a (s1 @ s # s2) seen =
     bnd (call_verify L ks a s (keyid_of s))
       (\<lambda>_. Inr (True, add_all (filter py_truthy (map keyid_of (s1 @ [s]))) seen))"
  using assms(1)
proof (induction s1 arbitrary: seen)
  case Nil
  show ?case using signature_step[OF assms(2)] assms(3) by simp
next
  case (Cons x s1)
  then have wk: "well_keyed x" and nu: "\<not> usable allowed ks (keyid_of x)" by simp_all
  have "signature_loop L allowed ks a ((x # s1) @ s # s2) seen =
      signature_loop L allowed ks a (s1 @ s # s2) (add_all (filter py_truthy [keyid_of x]) seen)"
    using signature_step[OF wk] nu by simp
  also have "\<dots> = bnd (call_verify L ks a s (keyid_of s))
       (\<lambda>_. Inr (True, add_all (filter py_truthy (map keyid_of (s1 @ [s])))
          (add_all (filter py_truthy [keyid_of x]) seen)))"
    using Cons by simp
  also have "add_all (filter py_truthy (map keyid_of (s1 @ [s]))) (add_all (filter py_truthy [keyid_of x]) seen)
      = add_all (filter py_truthy (map keyid_of ((x # s1) @ [s]))) seen"
    using add_all_append[of "filter py_truthy [keyid_of x]" "filter py_truthy (map keyid_of (s1 @ [s]))" seen]
    by simp
  finally show ?case .
qed

lemma verify_policy_abort:
  assumes gc: "gate_checks L bundle policy trust_store = Inr c"
    and ba: "bundle_attestations bundle = Inr (pre @ a # post)"
    and lp: "attestation_loop L d (allowed_signers c) (keys c) pre init_acc = Inr st"
    and sc: "scan_attestation L d (allowed_signers c) (keys c) a st = Inl e"
  shows "verify_policy L bundle policy trust_store d = Inl e"
  using verify_policy_reached[OF gc ba] lp sc by (simp add: attestation_loop_append)

lemma scan_attestation_reached:
  assumes rs: "read_statement L d a st = Inr pm"
    and sg: "attestation_signatures a = Inr sgs"
  shows "scan_attestation L d allowed ks a st =
     bnd (signature_loop L allowed ks a sgs (seen_signers st)) (\<lambda>r.
       if \<not> fst r then
         bnd (py_sorted allowed) (\<lambda>al.
         bnd (py_sorted (snd r)) (\<lambda>s.
           Inl (GateError ''no valid signature for allowed signer'' ''ERR_POLICY_DENIED''
                 [(''allowed'', JArr al), (''seen'', JArr s)])))
       else
         Inr \<lparr>seen_predicates = fst pm, seen_signers = snd r, missing_subjects = snd pm\<rparr>)"
  using assms by (simp add: scan_attestation_def)

text \<open>
  C3 (amended). Attestations are processed in bundle order. For an attestation that is
  reached and whose statement is read, the signatures are scanned in order, each non-empty
  \<open>keyid\<close> is recorded in the observed signers, and the Signature Verifier is run on the
  first signature whose \<open>keyid\<close> is both in \<open>policy.allowedSigners\<close> and in the key index,
  and on no other. If no signature has such a \<open>keyid\<close>, evaluation denies at once with
  \<^verbatim>\<open>ERR_POLICY_DENIED\<close> and details \<open>{allowed, seen}\<close>, both sorted, whatever the
  subject digests and the required predicates are. If the verifier accepts that first
  signature, the scan stops there and the attestation is signer-validated. If the call
  fails, evaluation ends with the exception of the call and no later signature is tried.
\<close>

theorem signer_validation:
  assumes gc: "gate_checks L bundle policy trust_store = Inr c"
    and ba: "bundle_attestations bundle = Inr (pre @ a # post)"
    and lp: "attestation_loop L d (allowed_signers c) (keys c) pre init_acc = Inr st"
    and rs: "read_statement L d a st = Inr pm"
    and sg: "attestation_signatures a = Inr sgs"
  shows "((\<forall>s\<in>set sgs. well_keyed s \<and> \<not> usable (allowed_signers c) (keys c) (keyid_of s)) \<longrightarrow>
           (\<forall>al sn. py_sorted (allowed_signers c) = Inr al
                \<and> py_sorted (add_all (filter py_truthy (map keyid_of sgs)) (seen_signers st)) = Inr sn \<longrightarrow>
              verify_policy L bundle policy trust_store d =
                Inl (GateError ''no valid signature for allowed signer'' ''ERR_POLICY_DENIED''
                      [(''allowed'', JArr al), (''seen'', JArr sn)])))
       \<and> (\<forall>s1 s s2. sgs = s1 @ s # s2
              \<and> (\<forall>x\<in>set s1. well_keyed x \<and> \<not> usable (allowed_signers c) (keys c) (keyid_of x))
              \<and> well_keyed s \<and> usable (allowed_signers c) (keys c) (keyid_of s) \<longrightarrow>
            (\<forall>e. call_verify L (keys c) a s (keyid_of s) = Inl e \<longrightarrow>
               verify_policy L bundle policy trust_store d = Inl e)
            \<and> (call_verify L (keys c) a s (keyid_of s) = Inr () \<longrightarrow>
                 scan_attestation L d (allowed_signers c) (keys c) a st =
                   Inr \<lparr>seen_predicates = fst pm,
                        seen_signers = add_all (filter py_truthy (map keyid_of (s1 @ [s]))) (seen_signers st),
                        missing_subjects = snd pm\<rparr>))
       \<and> seen_signers st = add_all (observed_keyids (allowed_signers c) (keys c) pre) []"
proof (intro conjI allI impI)
  assume none: "\<forall>s\<in>set sgs. well_keyed s \<and> \<not> usable (allowed_signers c) (keys c) (keyid_of s)"
  fix al sn
  assume srt: "py_sorted (allowed_signers c) = Inr al
                \<and> py_sorted (add_all (filter py_truthy (map keyid_of sgs)) (seen_signers st)) = Inr sn"
  have "scan_attestation L d (allowed_signers c) (keys c) a st =
      Inl (GateError ''no valid signature for allowed signer'' ''ERR_POLICY_DENIED''
            [(''allowed'', JArr al), (''seen'', JArr sn)])"
    using scan_attestation_reached[OF rs sg] signature_loop_none[OF none] srt by simp
  then show "verify_policy L bundle policy trust_store d =
                Inl (GateError ''no valid signature for allowed signer'' ''ERR_POLICY_DENIED''
                      [(''allowed'', JArr al), (''seen'', JArr sn)])"
    by (rule verify_policy_abort[OF gc ba lp])
next
  fix s1 s s2 e
  assume h: "sgs = s1 @ s # s2
              \<and> (\<forall>x\<in>set s1. well_keyed x \<and> \<not> usable (allowed_signers c) (keys c) (keyid_of x))
              \<and> well_keyed s \<and> usable (allowed_signers c) (keys c) (keyid_of s)"
    and cv: "call_verify L (keys c) a s (keyid_of s) = Inl e"
  from h have sl: "signature_loop L (allowed_signers c) (keys c) a sgs (seen_signers st) =
     bnd (call_verify L (keys c) a s (keyid_of s))
       (\<lambda>_. Inr (True, add_all (filter py_truthy (map keyid_of (s1 @ [s]))) (seen_signers st)))"
    using signature_loop_first by blast
  have "scan_attestation L d (allowed_signers c) (keys c) a st = Inl e"
    using scan_attestation_reached[OF rs sg] sl cv by simp
  then show "verify_policy L bundle policy trust_store d = Inl e"
    by (rule verify_policy_abort[OF gc ba lp])
next
  fix s1 s s2
  assume h: "sgs = s1 @ s # s2
              \<and> (\<forall>x\<in>set s1. well_keyed x \<and> \<not> usable (allowed_signers c) (keys c) (keyid_of x))
              \<and> well_keyed s \<and> usable (allowed_signers c) (keys c) (keyid_of s)"
    and cv: "call_verify L (keys c) a s (keyid_of s) = Inr ()"
  from h have sl: "signature_loop L (allowed_signers c) (keys c) a sgs (seen_signers st) =
     bnd (call_verify L (keys c) a s (keyid_of s))
       (\<lambda>_. Inr (True, add_all (filter py_truthy (map keyid_of (s1 @ [s]))) (seen_signers st)))"
    using signature_loop_first by blast
  show "scan_attestation L d (allowed_signers c) (keys c) a st =
                   Inr \<lparr>seen_predicates = fst pm,
                        seen_signers = add_all (filter py_truthy (map keyid_of (s1 @ [s]))) (seen_signers st),
                        missing_subjects = snd pm\<rparr>"
    using scan_attestation_reached[OF rs sg] sl cv by simp
next
  show "seen_signers st = add_all (observed_keyids (allowed_signers c) (keys c) pre) []"
    using attestation_loop_Inr[OF lp] by simp
qed

theorem signer_validation_witness:
  "verify_policy test_lib bundle_ok (policy_with [''provenance''] [''k3''] 1) trust_store_ok
     ''sha256:ab13''
   = Inl (GateError ''no valid signature for allowed signer'' ''ERR_POLICY_DENIED''
           [(''allowed'', JArr [JStr ''k3'']), (''seen'', JArr [JStr ''k1''])])"
proof -
  let ?c = "\<lparr>required_predicates = [JStr ''provenance''], allowed_signers = [JStr ''k3''],
      log_quorum = JInt 1, keys = keys_ok, log_ids = [JStr ''log-a'']\<rparr>"
  have gc: "gate_checks test_lib bundle_ok (policy_with [''provenance''] [''k3''] 1)
      trust_store_ok = Inr ?c"
    by code_simp
  have ba: "bundle_attestations bundle_ok = Inr ([] @ attestation_ok # [])"
    by code_simp
  have lp: "attestation_loop test_lib ''sha256:ab13'' (allowed_signers ?c) (keys ?c) [] init_acc
      = Inr init_acc"
    by simp
  have rs: "read_statement test_lib ''sha256:ab13'' attestation_ok init_acc
      = Inr ([JStr ''provenance''], [JStr ''ab12''])"
    by code_simp
  have sg: "attestation_signatures attestation_ok = Inr [signature_k1]"
    by code_simp
  have wk: "well_keyed signature_k1" by code_simp
  have nu: "\<not> usable (allowed_signers ?c) (keys ?c) (keyid_of signature_k1)" by code_simp
  have none: "\<forall>s\<in>set [signature_k1]. well_keyed s
      \<and> \<not> usable (allowed_signers ?c) (keys ?c) (keyid_of s)"
    using wk nu by simp
  have srt: "py_sorted (allowed_signers ?c) = Inr [JStr ''k3'']
      \<and> py_sorted (add_all (filter py_truthy (map keyid_of [signature_k1])) (seen_signers init_acc))
        = Inr [JStr ''k1'']"
    by code_simp
  have "(\<forall>s\<in>set [signature_k1]. well_keyed s
          \<and> \<not> usable (allowed_signers ?c) (keys ?c) (keyid_of s)) \<longrightarrow>
      (\<forall>al sn. py_sorted (allowed_signers ?c) = Inr al
          \<and> py_sorted (add_all (filter py_truthy (map keyid_of [signature_k1]))
                (seen_signers init_acc)) = Inr sn \<longrightarrow>
         verify_policy test_lib bundle_ok (policy_with [''provenance''] [''k3''] 1)
           trust_store_ok ''sha256:ab13'' =
           Inl (GateError ''no valid signature for allowed signer'' ''ERR_POLICY_DENIED''
                 [(''allowed'', JArr al), (''seen'', JArr sn)]))"
    using signer_validation[OF gc ba lp rs sg] by (rule conjunct1)
  with none srt show ?thesis by blast
qed

text \<open>
  The claim as first stated fails on an attestation whose only signature has an allowed,
  resolvable \<open>keyid\<close> and does not verify: no signature validates, and the result is the
  \<^verbatim>\<open>CalledProcessError\<close> of the verifier, not the denial with \<open>{allowed, seen}\<close>.
\<close>

theorem signer_validation_counterexample:
  "verify_policy test_lib (bundle_with [attestation_bad_sig] [log_a]) policy_ok trust_store_ok
     ''sha256:ab12'' = Inl (PyError CalledProcessError)
   \<and> \<not> signer_validated test_lib [JStr ''k1''] keys_ok attestation_bad_sig
   \<and> \<not> policy_denied (verify_policy test_lib (bundle_with [attestation_bad_sig] [log_a])
         policy_ok trust_store_ok ''sha256:ab12'')"
proof -
  have v: "verify_policy test_lib (bundle_with [attestation_bad_sig] [log_a]) policy_ok
      trust_store_ok ''sha256:ab12'' = Inl (PyError CalledProcessError)"
    by code_simp
  have n: "\<not> signer_validated test_lib [JStr ''k1''] keys_ok attestation_bad_sig"
    by code_simp
  show ?thesis using v n by (simp add: policy_denied_def)
qed

section \<open>Failures of the Signature Verifier and of the decoding\<close>

lemma verify_signature_strings:
  "verify_signature L (JStr k) (JStr p) (JStr s) =
     (case b64decode L k of
        None \<Rightarrow> Inl (PyError Base64Error)
      | Some pub_der \<Rightarrow>
          (case b64decode L s of
             None \<Rightarrow> Inl (PyError Base64Error)
           | Some signature \<Rightarrow>
               if openssl_verify L pub_der signature (dsse_pae PAYLOAD_TYPE p) then Inr ()
               else Inl (PyError CalledProcessError)))"
  by (simp add: verify_signature_def py_b64decode_def Let_def split: option.splits)

text \<open>
  C1 (amended). A signature check on strings fails with \<^verbatim>\<open>binascii.Error\<close> when the
  public key or the signature is not base64, and with \<^verbatim>\<open>CalledProcessError\<close> when the
  external verifier rejects the key, the signature or the message (a malformed key, a
  wrong signature, a payload changed after signing). Every failure of the Signature
  Verifier is such an uncaught exception of the library, never a \<open>GateError\<close>; the engine
  does not catch it: the scan of the signatures ends with it, no later signature is
  tried, and a Report is returned only if the check made on every attestation succeeded.
  The message given to the verifier determines the payload: a payload changed after
  signing is checked against a different message.
\<close>

theorem verify_signature_failures:
  "verify_signature L (JStr k) (JStr p) (JStr s) =
     (case b64decode L k of
        None \<Rightarrow> Inl (PyError Base64Error)
      | Some pub_der \<Rightarrow>
          (case b64decode L s of
             None \<Rightarrow> Inl (PyError Base64Error)
           | Some signature \<Rightarrow>
               if openssl_verify L pub_der signature (dsse_pae PAYLOAD_TYPE p) then Inr ()
               else Inl (PyError CalledProcessError)))
   \<and> (\<forall>e. verify_signature L pub_key_b64 payload_b64 signature_b64 = Inl e \<longrightarrow> uncaught e)
   \<and> (\<forall>e. well_keyed sg \<and> usable allowed ks (keyid_of sg)
          \<and> call_verify L ks a sg (keyid_of sg) = Inl e \<longrightarrow>
        uncaught e \<and> signature_loop L allowed ks a (sg # rest) seen = Inl e)
   \<and> (\<forall>r c atts. verify_policy L bundle policy trust_store d = Inr r
          \<and> gate_checks L bundle policy trust_store = Inr c
          \<and> bundle_attestations bundle = Inr atts \<longrightarrow>
        (\<forall>x\<in>set atts. signer_validated L (allowed_signers c) (keys c) x))
   \<and> (\<forall>q. dsse_pae PAYLOAD_TYPE q = dsse_pae PAYLOAD_TYPE p \<longrightarrow> q = p)"
proof (intro conjI allI impI)
  show "verify_signature L (JStr k) (JStr p) (JStr s) =
     (case b64decode L k of
        None \<Rightarrow> Inl (PyError Base64Error)
      | Some pub_der \<Rightarrow>
          (case b64decode L s of
             None \<Rightarrow> Inl (PyError Base64Error)
           | Some signature \<Rightarrow>
               if openssl_verify L pub_der signature (dsse_pae PAYLOAD_TYPE p) then Inr ()
               else Inl (PyError CalledProcessError)))"
    by (rule verify_signature_strings)
next
  fix e assume "verify_signature L pub_key_b64 payload_b64 signature_b64 = Inl e"
  then show "uncaught e" by (rule verify_signature_uncaught)
next
  fix e
  assume h: "well_keyed sg \<and> usable allowed ks (keyid_of sg)
          \<and> call_verify L ks a sg (keyid_of sg) = Inl e"
  then show "uncaught e" using call_verify_uncaught by blast
  from h show "signature_loop L allowed ks a (sg # rest) seen = Inl e"
    using signature_step[of sg L allowed ks a rest seen] by simp
next
  fix r c atts
  assume h: "verify_policy L bundle policy trust_store d = Inr r
          \<and> gate_checks L bundle policy trust_store = Inr c
          \<and> bundle_attestations bundle = Inr atts"
  then obtain st where "attestation_loop L d (allowed_signers c) (keys c) atts init_acc = Inr st"
    by (auto simp: verify_policy_def bnd_eq_Inr)
  then show "\<forall>x\<in>set atts. signer_validated L (allowed_signers c) (keys c) x"
    using attestation_loop_Inr by blast
next
  fix q assume "dsse_pae PAYLOAD_TYPE q = dsse_pae PAYLOAD_TYPE p"
  then show "q = p" by (rule dsse_pae_inj)
qed

theorem verify_signature_failures_witness:
  "verify_signature test_lib (JStr ''a2V5LW9uZQ=='') (JStr ''e30='') (JStr ''c2lnLW9uZQ=='')
     = Inl (PyError CalledProcessError)
   \<and> verify_signature test_lib (JStr ''a2V5LW9uZQ=='') (JStr statement_b64) (JStr ''c2lnLW9uZQ=='')
     = Inr ()"
proof -
  have 1: "(case b64decode test_lib ''a2V5LW9uZQ=='' of
        None \<Rightarrow> Inl (PyError Base64Error)
      | Some pub_der \<Rightarrow>
          (case b64decode test_lib ''c2lnLW9uZQ=='' of
             None \<Rightarrow> Inl (PyError Base64Error)
           | Some signature \<Rightarrow>
               if openssl_verify test_lib pub_der signature (dsse_pae PAYLOAD_TYPE ''e30='') then Inr ()
               else Inl (PyError CalledProcessError))) = Inl (PyError CalledProcessError)"
    by code_simp
  have 2: "(case b64decode test_lib ''a2V5LW9uZQ=='' of
        None \<Rightarrow> Inl (PyError Base64Error)
      | Some pub_der \<Rightarrow>
          (case b64decode test_lib ''c2lnLW9uZQ=='' of
             None \<Rightarrow> Inl (PyError Base64Error)
           | Some signature \<Rightarrow>
               if openssl_verify test_lib pub_der signature (dsse_pae PAYLOAD_TYPE statement_b64) then Inr ()
               else Inl (PyError CalledProcessError))) = Inr ()"
    by code_simp
  have a: "verify_signature test_lib (JStr ''a2V5LW9uZQ=='') (JStr ''e30='') (JStr ''c2lnLW9uZQ=='') =
     (case b64decode test_lib ''a2V5LW9uZQ=='' of
        None \<Rightarrow> Inl (PyError Base64Error)
      | Some pub_der \<Rightarrow>
          (case b64decode test_lib ''c2lnLW9uZQ=='' of
             None \<Rightarrow> Inl (PyError Base64Error)
           | Some signature \<Rightarrow>
               if openssl_verify test_lib pub_der signature (dsse_pae PAYLOAD_TYPE ''e30='') then Inr ()
               else Inl (PyError CalledProcessError)))"
    using verify_signature_failures[of test_lib "''a2V5LW9uZQ==''" "''e30=''" "''c2lnLW9uZQ==''"]
    by (rule conjunct1)
  have b: "verify_signature test_lib (JStr ''a2V5LW9uZQ=='') (JStr statement_b64) (JStr ''c2lnLW9uZQ=='') =
     (case b64decode test_lib ''a2V5LW9uZQ=='' of
        None \<Rightarrow> Inl (PyError Base64Error)
      | Some pub_der \<Rightarrow>
          (case b64decode test_lib ''c2lnLW9uZQ=='' of
             None \<Rightarrow> Inl (PyError Base64Error)
           | Some signature \<Rightarrow>
               if openssl_verify test_lib pub_der signature (dsse_pae PAYLOAD_TYPE statement_b64) then Inr ()
               else Inl (PyError CalledProcessError)))"
    using verify_signature_failures[of test_lib "''a2V5LW9uZQ==''" statement_b64 "''c2lnLW9uZQ==''"]
    by (rule conjunct1)
  show ?thesis using a b 1 2 by simp
qed

text \<open>
  The claim as first stated fails on a wrong signature and on a key that is not base64:
  neither result is a denial with \<^verbatim>\<open>ERR_POLICY_DENIED\<close>, and the two differ.
\<close>

theorem verify_signature_failures_counterexample:
  "verify_signature test_lib (JStr ''a2V5LW9uZQ=='') (JStr statement_b64) (JStr ''c2lnLWJhZA=='')
     = Inl (PyError CalledProcessError)
   \<and> verify_signature test_lib (JStr ''abc'') (JStr statement_b64) (JStr ''c2lnLW9uZQ=='')
     = Inl (PyError Base64Error)
   \<and> \<not> policy_denied (verify_signature test_lib (JStr ''a2V5LW9uZQ=='') (JStr statement_b64)
         (JStr ''c2lnLWJhZA==''))
   \<and> \<not> policy_denied (verify_signature test_lib (JStr ''abc'') (JStr statement_b64)
         (JStr ''c2lnLW9uZQ==''))"
proof -
  have 1: "verify_signature test_lib (JStr ''a2V5LW9uZQ=='') (JStr statement_b64)
      (JStr ''c2lnLWJhZA=='') = Inl (PyError CalledProcessError)"
    by code_simp
  have 2: "verify_signature test_lib (JStr ''abc'') (JStr statement_b64) (JStr ''c2lnLW9uZQ=='')
     = Inl (PyError Base64Error)"
    by code_simp
  show ?thesis using 1 2 by (simp add: policy_denied_def)
qed

lemma decode_statement_strings:
  assumes "py_index a ''payload'' = Inr (JStr p)"
  shows "decode_statement L a =
     (case b64decode L p of
        None \<Rightarrow> Inl (PyError Base64Error)
      | Some raw \<Rightarrow>
          (case decode_utf8 L raw of
             None \<Rightarrow> Inl (PyError UnicodeDecodeError)
           | Some payload \<Rightarrow>
               (case json_loads L payload of
                  None \<Rightarrow> Inl (PyError JSONDecodeError)
                | Some statement \<Rightarrow> Inr statement)))"
  using assms by (simp add: decode_statement_def py_b64decode_def split: option.splits)

text \<open>
  C2 (amended). When evaluation reaches an attestation whose statement cannot be decoded,
  it ends with the exception of the decoding, which is not a \<open>GateError\<close>: for a string
  payload, \<^verbatim>\<open>binascii.Error\<close> when the base64 decoding fails,
  \<^verbatim>\<open>UnicodeDecodeError\<close> when the bytes are not UTF-8, \<^verbatim>\<open>JSONDecodeError\<close> when
  the text is not JSON. The attestation is not skipped and no Report is returned.
\<close>

theorem decode_failure_aborts:
  assumes gc: "gate_checks L bundle policy trust_store = Inr c"
    and ba: "bundle_attestations bundle = Inr (pre @ a # post)"
    and lp: "attestation_loop L d (allowed_signers c) (keys c) pre init_acc = Inr st"
    and df: "decode_statement L a = Inl e"
  shows "verify_policy L bundle policy trust_store d = Inl e \<and> uncaught e
     \<and> (\<forall>p. py_index a ''payload'' = Inr (JStr p) \<longrightarrow>
          e = PyError (case b64decode L p of
                 None \<Rightarrow> Base64Error
               | Some raw \<Rightarrow>
                   (case decode_utf8 L raw of
                      None \<Rightarrow> UnicodeDecodeError
                    | Some payload \<Rightarrow> JSONDecodeError)))"
proof (intro conjI allI impI)
  have "read_statement L d a st = Inl e" using df by (simp add: read_statement_def)
  then have "scan_attestation L d (allowed_signers c) (keys c) a st = Inl e"
    by (simp add: scan_attestation_def)
  then show "verify_policy L bundle policy trust_store d = Inl e"
    by (rule verify_policy_abort[OF gc ba lp])
  show "uncaught e" using df by (rule decode_statement_uncaught)
next
  fix p assume "py_index a ''payload'' = Inr (JStr p)"
  from decode_statement_strings[OF this, of L] df
  show "e = PyError (case b64decode L p of
                 None \<Rightarrow> Base64Error
               | Some raw \<Rightarrow>
                   (case decode_utf8 L raw of
                      None \<Rightarrow> UnicodeDecodeError
                    | Some payload \<Rightarrow> JSONDecodeError))"
    by (auto split: option.splits)
qed

theorem decode_failure_aborts_witness:
  "verify_policy test_lib (bundle_with [attestation_ok, attestation_not_json] [log_a]) policy_ok
     trust_store_ok ''sha256:ab12'' = Inl (PyError JSONDecodeError)"
proof -
  let ?c = "ctx_with 1 [JStr ''log-a'']"
  have gc: "gate_checks test_lib (bundle_with [attestation_ok, attestation_not_json] [log_a])
      policy_ok trust_store_ok = Inr ?c"
    by code_simp
  have ba: "bundle_attestations (bundle_with [attestation_ok, attestation_not_json] [log_a])
      = Inr ([attestation_ok] @ attestation_not_json # [])"
    by code_simp
  have lp: "attestation_loop test_lib ''sha256:ab12'' (allowed_signers ?c) (keys ?c)
      [attestation_ok] init_acc
      = Inr \<lparr>seen_predicates = [JStr ''provenance''], seen_signers = [JStr ''k1''],
             missing_subjects = []\<rparr>"
    by code_simp
  have df: "decode_statement test_lib attestation_not_json = Inl (PyError JSONDecodeError)"
    by code_simp
  show ?thesis
    using decode_failure_aborts[OF gc ba lp df] by (rule conjunct1)
qed

text \<open>
  The claim as first stated fails on a payload that is not base64 and on a payload that is
  not JSON: the result is the uncaught exception, not a denial with
  \<^verbatim>\<open>ERR_POLICY_DENIED\<close>.
\<close>

theorem decode_failure_aborts_counterexample:
  "verify_policy test_lib (bundle_with [attestation_undecodable] [log_a]) policy_ok
     trust_store_ok ''sha256:ab12'' = Inl (PyError Base64Error)
   \<and> verify_policy test_lib (bundle_with [attestation_not_json] [log_a]) policy_ok
       trust_store_ok ''sha256:ab12'' = Inl (PyError JSONDecodeError)
   \<and> \<not> policy_denied (verify_policy test_lib (bundle_with [attestation_undecodable] [log_a])
         policy_ok trust_store_ok ''sha256:ab12'')
   \<and> \<not> policy_denied (verify_policy test_lib (bundle_with [attestation_not_json] [log_a])
         policy_ok trust_store_ok ''sha256:ab12'')"
proof -
  have 1: "verify_policy test_lib (bundle_with [attestation_undecodable] [log_a]) policy_ok
     trust_store_ok ''sha256:ab12'' = Inl (PyError Base64Error)"
    by code_simp
  have 2: "verify_policy test_lib (bundle_with [attestation_not_json] [log_a]) policy_ok
       trust_store_ok ''sha256:ab12'' = Inl (PyError JSONDecodeError)"
    by code_simp
  show ?thesis using 1 2 by (simp add: policy_denied_def)
qed

end
